theory Spec2Isabelle
  imports Complex_Main "HOL-Library.Log_Nat"
begin

section \<open>The mirror of the crowdfunding contract: data model\<close>

text \<open>
  The indexer (\<^verbatim>\<open>src/services/blockchain.js\<close>), its scheduler (\<^verbatim>\<open>worker.js\<close>), the
  reconciliation pass (\<^verbatim>\<open>src/services/reconciliation.js\<close>) and the donation relay
  (\<^verbatim>\<open>src/services/directDonationMonitor.js\<close>) are embedded as functions on an explicit
  state: the relational tables of \<^verbatim>\<open>migrations/001_initial_schema.js\<close> and its successors,
  together with the list of transactions that the relay handed to its node.

  Conventions of the embedding.
  \<^item> A \<^verbatim>\<open>DECIMAL(24, 8)\<close> column holds an integer number of \<open>10\<^sup>-\<^sup>8\<close> units; the string
    that \<^verbatim>\<open>ethers.formatUnits(x, 8)\<close> prints for a contract amount \<open>x\<close> denotes exactly
    \<open>x\<close> such units. The 24 digit precision is checked where the donation indexer, the
    reconciliation pass and the relay write amounts; the widths of the text columns are
    not modelled.
  \<^item> Campaign and withdrawal-request identifiers are the numbers whose decimal notation the
    code stores.
  \<^item> Block numbers are integers (JavaScript numbers below \<open>2\<^sup>5\<^sup>3\<close>).
  \<^item> A JavaScript exception is a value of type \<open>error\<close>. Every operation returns its
    outcome together with the state it leaves behind, because what was committed before a
    throw stays committed.
  \<^item> \<^verbatim>\<open>NOW()\<close> and \<^verbatim>\<open>Date.now()\<close> read the field \<open>now\<close> of the environment of the pass.
  \<^item> Logging and the \<^verbatim>\<open>metrics\<close> counters do not influence any table and are left out.
\<close>

type_synonym network = string
type_synonym address = string
type_synonym txhash = string
type_synonym timestamp = nat
type_synonym units8 = int

datatype error = RpcError string | DbError string | TypeError string | InitError

type_synonym ('a, 's) outcome = "(error + 'a) \<times> 's"

subsection \<open>Tables\<close>

record campaign_row =
  c_name :: string
  c_description :: string
  c_target_amount :: units8
  c_social_link :: string
  c_image_id :: nat
  c_creator :: address
  c_ended :: bool
  c_amount_raised :: units8
  c_created_at :: timestamp
  c_updated_at :: timestamp
  c_chain :: network
  c_tx_hash :: txhash
  c_last_reconciled :: "timestamp option"

record donation_row =
  d_campaign_id :: nat
  d_donor :: address
  d_amount :: units8
  d_timestamp :: timestamp
  d_chain :: network
  d_tx_hash :: txhash

record transaction_row =
  t_type :: string
  t_user_address :: address
  t_campaign_id :: "nat option"
  t_amount :: "units8 option"
  t_token :: "address option"
  t_target_chain :: "nat option"
  t_timestamp :: timestamp
  t_chain :: network
  t_tx_hash :: txhash

datatype withdrawal_status = Requested | Processed

record withdrawal_row =
  w_user_address :: address
  w_amount :: units8
  w_token :: address
  w_target_chain :: nat
  w_status :: withdrawal_status
  w_request_timestamp :: timestamp
  w_processed_timestamp :: "timestamp option"
  w_chain :: network
  w_tx_hash :: txhash
  w_processed_tx_hash :: "txhash option"

record cursor_row =
  last_indexed_block :: int
  cur_updated_at :: timestamp

record reconciliation_row =
  r_campaign_id :: nat
  r_previous_value :: units8
  r_new_value :: units8
  r_discrepancy :: units8
  r_reconciled_at :: timestamp

record wallet_row =
  campaign_id :: nat
  wallet_address :: address
  private_key :: string

datatype dd_status = Pending | Completed | Failed

record direct_donation_row =
  dd_id :: nat
  dd_campaign_id :: nat
  dd_wallet_address :: address
  dd_amount :: units8
  dd_status :: dd_status
  dd_source_tx_hash :: timestamp
  dd_contract_tx_hash :: "txhash option"
  dd_created_at :: timestamp
  dd_processed_at :: "timestamp option"
  dd_check_count :: "nat option"
  dd_tx_nonce :: "nat option"

text \<open>
  A transaction as the relay submits it: the donation call on the contract or the plain
  transfer that replaces a stuck transaction.
\<close>

datatype tx_target = Donate nat | Transfer address

record tx_request =
  tx_from :: address
  tx_to :: tx_target
  tx_value :: int
  tx_nonce :: nat
  tx_maxFeePerGas :: nat
  tx_maxPriorityFeePerGas :: nat
  tx_gasLimit :: nat

text \<open>
  The tables \<open>campaigns\<close> and \<open>withdrawals\<close> are lists of rows under their primary
  key, in the order of insertion; \<open>indexer_state\<close> is only ever read and written by
  key. The source string of a direct donation is \<^verbatim>\<open>balance-check-<Date.now()>\<close>, kept
  as the clock value.
\<close>

record state =
  campaigns :: "(nat \<times> campaign_row) list"
  donations :: "donation_row list"
  transactions :: "transaction_row list"
  withdrawals :: "(nat \<times> withdrawal_row) list"
  indexer_state :: "network \<rightharpoonup> cursor_row"
  reconciliation_log :: "reconciliation_row list"
  campaign_wallets :: "wallet_row list"
  direct_donations :: "direct_donation_row list"
  submitted :: "tx_request list"


section \<open>The chain as the indexer sees it\<close>

record chain_campaign =
  cc_name :: string
  cc_target :: nat
  cc_description :: string
  cc_socialLink :: string
  cc_imageId :: nat
  cc_creator :: address
  cc_ended :: bool
  cc_totalStable :: nat

record created_event =
  ce_campaignId :: nat
  ce_creator :: address
  ce_transactionHash :: txhash

record edited_event =
  ee_campaignId :: nat
  ee_transactionHash :: txhash

record ended_event =
  ne_campaignId :: nat
  ne_finalStableValue :: nat
  ne_transactionHash :: txhash

record donation_event =
  de_campaignId :: nat
  de_donor :: address
  de_netUSDValue :: nat
  de_transactionHash :: txhash

record withdrawal_event =
  we_requestId :: nat
  we_requester :: address
  we_amount :: nat
  we_token :: address
  we_targetChainId :: nat
  we_transactionHash :: txhash

text \<open>
  The answers of the node during one pass. A call that \<^verbatim>\<open>withRetry\<close> wraps takes the number
  of the attempt as its last argument, so that a call may fail at first and succeed later.
\<close>

record chain_env =
  now :: timestamp
  getBlockNumber :: "error + int"
  queryCampaignCreated :: "int \<Rightarrow> int \<Rightarrow> nat \<Rightarrow> error + created_event list"
  queryCampaignEdited :: "int \<Rightarrow> int \<Rightarrow> nat \<Rightarrow> error + edited_event list"
  queryCampaignEnded :: "int \<Rightarrow> int \<Rightarrow> nat \<Rightarrow> error + ended_event list"
  queryDonationMade :: "int \<Rightarrow> int \<Rightarrow> nat \<Rightarrow> error + donation_event list"
  queryWithdrawalRequested :: "int \<Rightarrow> int \<Rightarrow> nat \<Rightarrow> error + withdrawal_event list"
  queryWithdrawalProcessed :: "int \<Rightarrow> int \<Rightarrow> nat \<Rightarrow> error + withdrawal_event list"
  campaignsCall :: "nat \<Rightarrow> nat \<Rightarrow> error + chain_campaign"

subsection \<open>Constants and configuration of \<^verbatim>\<open>blockchain.js\<close>\<close>

definition MAX_BLOCK_RANGE :: int where
  "MAX_BLOCK_RANGE = 10000"

definition MAX_RETRY_COUNT :: nat where
  "MAX_RETRY_COUNT = 3"

record network_config =
  isMain :: bool

definition NETWORKS :: "(network \<times> network_config) list" where
  "NETWORKS =
     [(''polygon'', \<lparr>isMain = True\<rparr>), (''ethereum'', \<lparr>isMain = False\<rparr>),
      (''bsc'', \<lparr>isMain = False\<rparr>), (''base'', \<lparr>isMain = False\<rparr>),
      (''avalanche'', \<lparr>isMain = False\<rparr>), (''optimism'', \<lparr>isMain = False\<rparr>),
      (''arbitrum'', \<lparr>isMain = False\<rparr>), (''sonic'', \<lparr>isMain = False\<rparr>),
      (''soneium'', \<lparr>isMain = False\<rparr>)]"

text \<open>
  \<^verbatim>\<open>NETWORKS[network].isMain\<close>: reading a property of \<^verbatim>\<open>undefined\<close> throws.
\<close>

definition network_isMain :: "network \<Rightarrow> error + bool" where
  "network_isMain network =
     (case map_of NETWORKS network of
        None \<Rightarrow> Inl (TypeError ''Cannot read properties of undefined'')
      | Some config \<Rightarrow> Inr (isMain config))"

subsection \<open>\<^verbatim>\<open>withRetry\<close>\<close>

fun retry_from :: "(nat \<Rightarrow> error + 'a) \<Rightarrow> nat \<Rightarrow> nat \<Rightarrow> error option \<Rightarrow> error + 'a" where
  "retry_from fn attempt 0 lastError =
     Inl (case lastError of Some e \<Rightarrow> e | None \<Rightarrow> TypeError ''undefined'')"
| "retry_from fn attempt (Suc remaining) lastError =
     (case fn attempt of
        Inr result \<Rightarrow> Inr result
      | Inl e \<Rightarrow> retry_from fn (Suc attempt) remaining (Some e))"

definition withRetry :: "(nat \<Rightarrow> error + 'a) \<Rightarrow> error + 'a" where
  "withRetry fn = retry_from fn 1 MAX_RETRY_COUNT None"

subsection \<open>Statements on a table with a primary key\<close>

text \<open>\<^verbatim>\<open>INSERT ... ON CONFLICT (id) DO NOTHING\<close> for one row.\<close>

definition insert_do_nothing :: "'k \<Rightarrow> 'v \<Rightarrow> ('k \<times> 'v) list \<Rightarrow> ('k \<times> 'v) list" where
  "insert_do_nothing k v t = (case map_of t k of None \<Rightarrow> t @ [(k, v)] | Some _ \<Rightarrow> t)"

text \<open>\<^verbatim>\<open>UPDATE ... SET ... WHERE id = k\<close>.\<close>

definition update_where :: "'k \<Rightarrow> ('v \<Rightarrow> 'v) \<Rightarrow> ('k \<times> 'v) list \<Rightarrow> ('k \<times> 'v) list" where
  "update_where k f t = map (\<lambda>(k', v). if k' = k then (k', f v) else (k', v)) t"


section \<open>The event indexer (\<^verbatim>\<open>blockchain.js\<close>)\<close>

subsection \<open>\<^verbatim>\<open>indexCampaignEvents\<close>\<close>

text \<open>
  The identifiers of the created and the edited events, in the order in which the
  JavaScript \<^verbatim>\<open>Set\<close> first received them.
\<close>

definition allCampaignIds :: "created_event list \<Rightarrow> edited_event list \<Rightarrow> nat list" where
  "allCampaignIds createdEvents editedEvents =
     rev (remdups (rev (map ce_campaignId createdEvents @ map ee_campaignId editedEvents)))"

text \<open>
  One batch of reads of the campaign structs: \<^verbatim>\<open>Promise.all\<close> over \<^verbatim>\<open>withRetry\<close> calls.
  When several reads of a batch fail, the model reports the failure of the first in the
  batch.
\<close>

fun fetchBatch :: "chain_env \<Rightarrow> nat list \<Rightarrow> error + (nat \<times> chain_campaign) list" where
  "fetchBatch env [] = Inr []"
| "fetchBatch env (i # batch) =
     (case withRetry (campaignsCall env i) of
        Inl e \<Rightarrow> Inl e
      | Inr campaign \<Rightarrow>
          (case fetchBatch env batch of
             Inl e \<Rightarrow> Inl e
           | Inr results \<Rightarrow> Inr ((i, campaign) # results)))"

definition BATCH_SIZE :: nat where
  "BATCH_SIZE = 20"

function prefetch ::
  "chain_env \<Rightarrow> nat list \<Rightarrow> (nat \<rightharpoonup> chain_campaign) \<Rightarrow> error + (nat \<rightharpoonup> chain_campaign)" where
  "prefetch env campaignIdsList campaignDataMap =
     (if campaignIdsList = [] then Inr campaignDataMap
      else
        (case fetchBatch env (take BATCH_SIZE campaignIdsList) of
           Inl e \<Rightarrow> Inl e
         | Inr results \<Rightarrow>
             prefetch env (drop BATCH_SIZE campaignIdsList)
               (fold (\<lambda>(i, campaign) m. m(i \<mapsto> campaign)) results campaignDataMap)))"
  by pat_completeness auto
termination
  by (relation "measure (\<lambda>(env, ids, m). length ids)") (auto simp: BATCH_SIZE_def)

declare prefetch.simps [simp del]

definition created_row :: "chain_env \<Rightarrow> network \<Rightarrow> chain_campaign \<Rightarrow> txhash \<Rightarrow> campaign_row" where
  "created_row env network campaign transactionHash =
     \<lparr>c_name = cc_name campaign,
      c_description = cc_description campaign,
      c_target_amount = int (cc_target campaign),
      c_social_link = cc_socialLink campaign,
      c_image_id = cc_imageId campaign,
      c_creator = cc_creator campaign,
      c_ended = cc_ended campaign,
      c_amount_raised = int (cc_totalStable campaign),
      c_created_at = now env,
      c_updated_at = now env,
      c_chain = network,
      c_tx_hash = transactionHash,
      c_last_reconciled = None\<rparr>"

text \<open>The rows of the batch insert: created events without pre-fetched data are skipped.\<close>

definition createdValues ::
  "chain_env \<Rightarrow> network \<Rightarrow> (nat \<rightharpoonup> chain_campaign) \<Rightarrow> created_event list
     \<Rightarrow> (nat \<times> campaign_row) list" where
  "createdValues env network campaignDataMap createdEvents =
     List.map_filter
       (\<lambda>event. case campaignDataMap (ce_campaignId event) of
            None \<Rightarrow> None
          | Some campaign \<Rightarrow>
              Some (ce_campaignId event,
                    created_row env network campaign (ce_transactionHash event)))
       createdEvents"

definition createdTxValues ::
  "chain_env \<Rightarrow> network \<Rightarrow> (nat \<rightharpoonup> chain_campaign) \<Rightarrow> created_event list
     \<Rightarrow> transaction_row list" where
  "createdTxValues env network campaignDataMap createdEvents =
     List.map_filter
       (\<lambda>event. case campaignDataMap (ce_campaignId event) of
            None \<Rightarrow> None
          | Some campaign \<Rightarrow>
              Some \<lparr>t_type = ''Campaign Created'', t_user_address = ce_creator event,
                    t_campaign_id = Some (ce_campaignId event), t_amount = None,
                    t_token = None, t_target_chain = None, t_timestamp = now env,
                    t_chain = network, t_tx_hash = ce_transactionHash event\<rparr>)
       createdEvents"

definition insertCreated ::
  "(nat \<times> campaign_row) list \<Rightarrow> transaction_row list \<Rightarrow> state \<Rightarrow> state" where
  "insertCreated values txValues s =
     (if values \<noteq> [] then
        s\<lparr>campaigns := fold (\<lambda>(k, row). insert_do_nothing k row) values (campaigns s),
          transactions := transactions s @ txValues\<rparr>
      else s)"

definition edited_update :: "chain_env \<Rightarrow> chain_campaign \<Rightarrow> campaign_row \<Rightarrow> campaign_row" where
  "edited_update env campaign row =
     row\<lparr>c_name := cc_name campaign,
         c_description := cc_description campaign,
         c_target_amount := int (cc_target campaign),
         c_social_link := cc_socialLink campaign,
         c_image_id := cc_imageId campaign,
         c_updated_at := now env\<rparr>"

definition applyEdited ::
  "chain_env \<Rightarrow> network \<Rightarrow> (nat \<rightharpoonup> chain_campaign) \<Rightarrow> edited_event \<Rightarrow> state \<Rightarrow> state" where
  "applyEdited env network campaignDataMap event s =
     (case campaignDataMap (ee_campaignId event) of
        None \<Rightarrow> s
      | Some campaign \<Rightarrow>
          s\<lparr>campaigns :=
              update_where (ee_campaignId event) (edited_update env campaign) (campaigns s),
            transactions := transactions s @
              [\<lparr>t_type = ''Campaign Edited'', t_user_address = cc_creator campaign,
                t_campaign_id = Some (ee_campaignId event), t_amount = None,
                t_token = None, t_target_chain = None, t_timestamp = now env,
                t_chain = network, t_tx_hash = ee_transactionHash event\<rparr>]\<rparr>)"

definition ended_update :: "chain_env \<Rightarrow> units8 \<Rightarrow> campaign_row \<Rightarrow> campaign_row" where
  "ended_update env finalAmount row =
     row\<lparr>c_ended := True, c_amount_raised := finalAmount, c_updated_at := now env\<rparr>"

definition applyEnded :: "chain_env \<Rightarrow> ended_event \<Rightarrow> state \<Rightarrow> state" where
  "applyEnded env event s =
     s\<lparr>campaigns :=
         update_where (ne_campaignId event)
           (ended_update env (int (ne_finalStableValue event))) (campaigns s)\<rparr>"

text \<open>
  The batch insert of the \<^verbatim>\<open>Campaign Ended\<close> audit rows reads the creator from the
  campaigns table; \<^verbatim>\<open>user_address\<close> is \<^verbatim>\<open>NOT NULL\<close>, so the statement fails when one of
  the campaigns is not mirrored.
\<close>

fun endedTxValues ::
  "chain_env \<Rightarrow> network \<Rightarrow> (nat \<times> campaign_row) list \<Rightarrow> ended_event list
     \<Rightarrow> error + transaction_row list" where
  "endedTxValues env network table [] = Inr []"
| "endedTxValues env network table (event # events) =
     (case map_of table (ne_campaignId event) of
        None \<Rightarrow> Inl (DbError ''null value in column user_address'')
      | Some row \<Rightarrow>
          (case endedTxValues env network table events of
             Inl e \<Rightarrow> Inl e
           | Inr rows \<Rightarrow>
               Inr (\<lparr>t_type = ''Campaign Ended'', t_user_address = c_creator row,
                     t_campaign_id = Some (ne_campaignId event),
                     t_amount = Some (int (ne_finalStableValue event)),
                     t_token = None, t_target_chain = None, t_timestamp = now env,
                     t_chain = network, t_tx_hash = ne_transactionHash event\<rparr> # rows)))"

text \<open>
  The writes of the category, between \<^verbatim>\<open>BEGIN\<close> and \<^verbatim>\<open>COMMIT\<close>, once the events and the
  campaign structs are there.
\<close>

definition writeCampaignEvents ::
  "chain_env \<Rightarrow> network \<Rightarrow> (nat \<rightharpoonup> chain_campaign) \<Rightarrow> created_event list
     \<Rightarrow> edited_event list \<Rightarrow> ended_event list \<Rightarrow> state \<Rightarrow> error + state" where
  "writeCampaignEvents env network campaignDataMap createdEvents editedEvents endedEvents s =
     (let s1 = insertCreated (createdValues env network campaignDataMap createdEvents)
                 (createdTxValues env network campaignDataMap createdEvents) s;
          s2 = fold (applyEdited env network campaignDataMap) editedEvents s1;
          s3 = fold (applyEnded env) endedEvents s2
      in case endedTxValues env network (campaigns s3) endedEvents of
           Inl e \<Rightarrow> Inl e
         | Inr rows \<Rightarrow> Inr (s3\<lparr>transactions := transactions s3 @ rows\<rparr>))"

text \<open>
  Any failure inside the \<^verbatim>\<open>try\<close> block rolls the transaction back and is thrown again:
  the state is the one before \<^verbatim>\<open>BEGIN\<close>.
\<close>

definition indexCampaignEvents ::
  "chain_env \<Rightarrow> network \<Rightarrow> int \<Rightarrow> int \<Rightarrow> state \<Rightarrow> (unit, state) outcome" where
  "indexCampaignEvents env network fromBlock toBlock s =
     (case network_isMain network of
        Inl e \<Rightarrow> (Inl e, s)
      | Inr main \<Rightarrow>
          if \<not> main then (Inr (), s)
          else
            (case withRetry (queryCampaignCreated env fromBlock toBlock) of
               Inl e \<Rightarrow> (Inl e, s)
             | Inr createdEvents \<Rightarrow>
            (case withRetry (queryCampaignEdited env fromBlock toBlock) of
               Inl e \<Rightarrow> (Inl e, s)
             | Inr editedEvents \<Rightarrow>
            (case withRetry (queryCampaignEnded env fromBlock toBlock) of
               Inl e \<Rightarrow> (Inl e, s)
             | Inr endedEvents \<Rightarrow>
            (case prefetch env (allCampaignIds createdEvents editedEvents) Map.empty of
               Inl e \<Rightarrow> (Inl e, s)
             | Inr campaignDataMap \<Rightarrow>
            (case writeCampaignEvents env network campaignDataMap
                    createdEvents editedEvents endedEvents s of
               Inl e \<Rightarrow> (Inl e, s)
             | Inr s' \<Rightarrow> (Inr (), s')))))))"


subsection \<open>\<^verbatim>\<open>indexDonationEvents\<close>\<close>

definition donationValues :: "chain_env \<Rightarrow> network \<Rightarrow> donation_event list \<Rightarrow> donation_row list" where
  "donationValues env network donationEvents =
     map (\<lambda>event. \<lparr>d_campaign_id = de_campaignId event, d_donor = de_donor event,
                    d_amount = int (de_netUSDValue event), d_timestamp = now env,
                    d_chain = network, d_tx_hash = de_transactionHash event\<rparr>)
       donationEvents"

definition donationTxValues ::
  "chain_env \<Rightarrow> network \<Rightarrow> donation_event list \<Rightarrow> transaction_row list" where
  "donationTxValues env network donationEvents =
     map (\<lambda>event. \<lparr>t_type = ''Donation'', t_user_address = de_donor event,
                    t_campaign_id = Some (de_campaignId event),
                    t_amount = Some (int (de_netUSDValue event)),
                    t_token = None, t_target_chain = None, t_timestamp = now env,
                    t_chain = network, t_tx_hash = de_transactionHash event\<rparr>)
       donationEvents"

text \<open>
  A \<^verbatim>\<open>DECIMAL(24, 8)\<close> column has sixteen digits before the point: a value of \<open>10\<^sup>2\<^sup>4\<close> or
  more units of \<open>10\<^sup>-\<^sup>8\<close>, of either sign, raises \<^verbatim>\<open>numeric field overflow\<close>.
\<close>

definition fits_decimal :: "units8 \<Rightarrow> bool" where
  "fits_decimal k = (\<bar>k\<bar> < 10 ^ 24)"

text \<open>
  \<^verbatim>\<open>UPDATE campaigns SET amount_raised = amount_raised + $1, updated_at = NOW() WHERE id = $2\<close>:
  the new row, or the overflow of the new total.
\<close>

definition donation_update :: "chain_env \<Rightarrow> units8 \<Rightarrow> campaign_row \<Rightarrow> error + campaign_row" where
  "donation_update env amount row =
     (if fits_decimal (c_amount_raised row + amount)
      then Inr (row\<lparr>c_amount_raised := c_amount_raised row + amount, c_updated_at := now env\<rparr>)
      else Inl (DbError ''numeric field overflow''))"

text \<open>\<^verbatim>\<open>UPDATE ... WHERE id = k\<close> with new values that may fail to fit.\<close>

fun update_where_checked ::
  "'k \<Rightarrow> ('v \<Rightarrow> error + 'v) \<Rightarrow> ('k \<times> 'v) list \<Rightarrow> error + ('k \<times> 'v) list" where
  "update_where_checked k f [] = Inr []"
| "update_where_checked k f ((k', v) # t) =
     (case (if k' = k then f v else Inr v) of
        Inl e \<Rightarrow> Inl e
      | Inr v' \<Rightarrow>
          (case update_where_checked k f t of
             Inl e \<Rightarrow> Inl e
           | Inr t' \<Rightarrow> Inr ((k', v') # t')))"

definition applyDonation :: "chain_env \<Rightarrow> donation_event \<Rightarrow> state \<Rightarrow> error + state" where
  "applyDonation env event s =
     (case update_where_checked (de_campaignId event)
             (donation_update env (int (de_netUSDValue event))) (campaigns s) of
        Inl e \<Rightarrow> Inl e
      | Inr table \<Rightarrow> Inr (s\<lparr>campaigns := table\<rparr>))"

text \<open>The loop over the updates stops at the first that fails.\<close>

fun applyDonations :: "chain_env \<Rightarrow> donation_event list \<Rightarrow> state \<Rightarrow> error + state" where
  "applyDonations env [] s = Inr s"
| "applyDonations env (event # events) s =
     (case applyDonation env event s of
        Inl e \<Rightarrow> Inl e
      | Inr s' \<Rightarrow> applyDonations env events s')"

text \<open>
  The writes of the category. The batch insert into \<^verbatim>\<open>donations\<close> fails when an amount
  does not fit \<^verbatim>\<open>DECIMAL(24, 8)\<close>, and, since \<^verbatim>\<open>donations.campaign_id\<close> references
  \<^verbatim>\<open>campaigns(id)\<close>, when the campaign of one of its rows is not mirrored. The audit rows
  carry the amounts of the donation rows.
\<close>

definition writeDonationEvents ::
  "chain_env \<Rightarrow> network \<Rightarrow> donation_event list \<Rightarrow> state \<Rightarrow> error + state" where
  "writeDonationEvents env network donationEvents s =
     (if \<not> list_all (\<lambda>event. fits_decimal (int (de_netUSDValue event))) donationEvents
      then Inl (DbError ''numeric field overflow'')
      else if \<not> list_all (\<lambda>event. map_of (campaigns s) (de_campaignId event) \<noteq> None)
                  donationEvents
      then Inl (DbError ''violates foreign key constraint'')
      else
        (case applyDonations env donationEvents
                (s\<lparr>donations := donations s @ donationValues env network donationEvents\<rparr>) of
           Inl e \<Rightarrow> Inl e
         | Inr s2 \<Rightarrow>
             Inr (s2\<lparr>transactions :=
                       transactions s2 @ donationTxValues env network donationEvents\<rparr>)))"

definition indexDonationEvents ::
  "chain_env \<Rightarrow> network \<Rightarrow> int \<Rightarrow> int \<Rightarrow> state \<Rightarrow> (unit, state) outcome" where
  "indexDonationEvents env network fromBlock toBlock s =
     (case network_isMain network of
        Inl e \<Rightarrow> (Inl e, s)
      | Inr main \<Rightarrow>
          if \<not> main then (Inr (), s)
          else
            (case withRetry (queryDonationMade env fromBlock toBlock) of
               Inl e \<Rightarrow> (Inl e, s)
             | Inr donationEvents \<Rightarrow>
                 (case writeDonationEvents env network donationEvents s of
                    Inl e \<Rightarrow> (Inl e, s)
                  | Inr s' \<Rightarrow> (Inr (), s'))))"

subsection \<open>\<^verbatim>\<open>indexWithdrawalEvents\<close>\<close>

definition requestValues ::
  "chain_env \<Rightarrow> network \<Rightarrow> withdrawal_event list \<Rightarrow> (nat \<times> withdrawal_row) list" where
  "requestValues env network requestEvents =
     map (\<lambda>event. (we_requestId event,
            \<lparr>w_user_address = we_requester event, w_amount = int (we_amount event),
             w_token = we_token event, w_target_chain = we_targetChainId event,
             w_status = Requested, w_request_timestamp = now env,
             w_processed_timestamp = None, w_chain = network,
             w_tx_hash = we_transactionHash event, w_processed_tx_hash = None\<rparr>))
       requestEvents"

definition requestTxValues ::
  "chain_env \<Rightarrow> network \<Rightarrow> withdrawal_event list \<Rightarrow> transaction_row list" where
  "requestTxValues env network requestEvents =
     map (\<lambda>event. \<lparr>t_type = ''Withdrawal Requested'', t_user_address = we_requester event,
                    t_campaign_id = None, t_amount = Some (int (we_amount event)),
                    t_token = Some (we_token event),
                    t_target_chain = Some (we_targetChainId event), t_timestamp = now env,
                    t_chain = network, t_tx_hash = we_transactionHash event\<rparr>)
       requestEvents"

definition applyProcessed :: "chain_env \<Rightarrow> network \<Rightarrow> withdrawal_event \<Rightarrow> state \<Rightarrow> state" where
  "applyProcessed env network event s =
     (case map_of (withdrawals s) (we_requestId event) of
        None \<Rightarrow> s
      | Some withdrawalData \<Rightarrow>
          s\<lparr>withdrawals :=
              update_where (we_requestId event)
                (\<lambda>row. row\<lparr>w_status := Processed, w_processed_timestamp := Some (now env),
                            w_processed_tx_hash := Some (we_transactionHash event)\<rparr>)
                (withdrawals s),
            transactions := transactions s @
              [\<lparr>t_type = ''Withdrawal Processed'',
                t_user_address = w_user_address withdrawalData,
                t_campaign_id = None, t_amount = Some (w_amount withdrawalData),
                t_token = Some (w_token withdrawalData),
                t_target_chain = Some (w_target_chain withdrawalData),
                t_timestamp = now env, t_chain = network,
                t_tx_hash = we_transactionHash event\<rparr>]\<rparr>)"

definition writeWithdrawalEvents ::
  "chain_env \<Rightarrow> network \<Rightarrow> withdrawal_event list \<Rightarrow> withdrawal_event list \<Rightarrow> state \<Rightarrow> state" where
  "writeWithdrawalEvents env network requestEvents processedEvents s =
     (let s1 = (if requestEvents \<noteq> [] then
                  s\<lparr>withdrawals :=
                      fold (\<lambda>(k, row). insert_do_nothing k row)
                        (requestValues env network requestEvents) (withdrawals s),
                    transactions :=
                      transactions s @ requestTxValues env network requestEvents\<rparr>
                else s)
      in fold (applyProcessed env network) processedEvents s1)"

definition indexWithdrawalEvents ::
  "chain_env \<Rightarrow> network \<Rightarrow> int \<Rightarrow> int \<Rightarrow> state \<Rightarrow> (unit, state) outcome" where
  "indexWithdrawalEvents env network fromBlock toBlock s =
     (case network_isMain network of
        Inl e \<Rightarrow> (Inl e, s)
      | Inr main \<Rightarrow>
          if \<not> main then (Inr (), s)
          else
            (case withRetry (queryWithdrawalRequested env fromBlock toBlock) of
               Inl e \<Rightarrow> (Inl e, s)
             | Inr requestEvents \<Rightarrow>
                 (case withRetry (queryWithdrawalProcessed env fromBlock toBlock) of
                    Inl e \<Rightarrow> (Inl e, s)
                  | Inr processedEvents \<Rightarrow>
                      (Inr (), writeWithdrawalEvents env network
                                 requestEvents processedEvents s))))"

subsection \<open>\<^verbatim>\<open>indexNetworkChunk\<close> and \<^verbatim>\<open>indexNetwork\<close>\<close>

text \<open>
  The three categories run one after the other, each in its own transaction; a failure
  is thrown on and leaves the categories before it committed.
\<close>

definition indexNetworkChunk ::
  "chain_env \<Rightarrow> network \<Rightarrow> int \<Rightarrow> int \<Rightarrow> state \<Rightarrow> (int, state) outcome" where
  "indexNetworkChunk env network fromBlock toBlock s =
     (case network_isMain network of
        Inl e \<Rightarrow> (Inl e, s)
      | Inr main \<Rightarrow>
          (case (if main then indexCampaignEvents env network fromBlock toBlock s
                 else (Inr (), s)) of
             (Inl e, s1) \<Rightarrow> (Inl e, s1)
           | (Inr _, s1) \<Rightarrow>
          (case (if main then indexDonationEvents env network fromBlock toBlock s1
                 else (Inr (), s1)) of
             (Inl e, s2) \<Rightarrow> (Inl e, s2)
           | (Inr _, s2) \<Rightarrow>
          (case (if main then indexWithdrawalEvents env network fromBlock toBlock s2
                 else (Inr (), s2)) of
             (Inl e, s3) \<Rightarrow> (Inl e, s3)
           | (Inr _, s3) \<Rightarrow> (Inr toBlock, s3)))))"

text \<open>
  \<^verbatim>\<open>for (let i = fromBlock; i < toBlock; i += MAX_BLOCK_RANGE)
     chunks.push([i, Math.min(i + MAX_BLOCK_RANGE - 1, toBlock)])\<close>
\<close>

function chunksFrom :: "int \<Rightarrow> int \<Rightarrow> (int \<times> int) list" where
  "chunksFrom i toBlock =
     (if i < toBlock
      then (i, min (i + MAX_BLOCK_RANGE - 1) toBlock) # chunksFrom (i + MAX_BLOCK_RANGE) toBlock
      else [])"
  by pat_completeness auto
termination
  by (relation "measure (\<lambda>(i, toBlock). nat (toBlock - i))") (auto simp: MAX_BLOCK_RANGE_def)

declare chunksFrom.simps [simp del]

text \<open>The loop over the chunks; \<open>lastProcessedBlock\<close> is what the last chunk returned.\<close>

fun processChunks ::
  "chain_env \<Rightarrow> network \<Rightarrow> (int \<times> int) list \<Rightarrow> int \<Rightarrow> state \<Rightarrow> (int, state) outcome" where
  "processChunks env network [] lastProcessedBlock s = (Inr lastProcessedBlock, s)"
| "processChunks env network ((chunkFrom, chunkTo) # chunks) lastProcessedBlock s =
     (case indexNetworkChunk env network chunkFrom chunkTo s of
        (Inl e, s') \<Rightarrow> (Inl e, s')
      | (Inr processed, s') \<Rightarrow> processChunks env network chunks processed s')"

text \<open>
  \<^verbatim>\<open>INSERT INTO indexer_state ... ON CONFLICT (chain) DO UPDATE SET last_indexed_block = $2\<close>
\<close>

definition upsertCursor :: "chain_env \<Rightarrow> network \<Rightarrow> int \<Rightarrow> state \<Rightarrow> state" where
  "upsertCursor env network block s =
     s\<lparr>indexer_state :=
         (indexer_state s)(network \<mapsto> \<lparr>last_indexed_block = block, cur_updated_at = now env\<rparr>)\<rparr>"

definition indexNetwork ::
  "chain_env \<Rightarrow> network \<Rightarrow> int \<Rightarrow> int \<Rightarrow> state \<Rightarrow> (int, state) outcome" where
  "indexNetwork env network fromBlock toBlock s =
     (if toBlock - fromBlock > MAX_BLOCK_RANGE then
        (case processChunks env network (chunksFrom fromBlock toBlock) fromBlock s of
           (Inl e, s') \<Rightarrow> (Inl e, s')
         | (Inr lastProcessedBlock, s') \<Rightarrow>
             (Inr lastProcessedBlock, upsertCursor env network lastProcessedBlock s'))
      else
        (case indexNetworkChunk env network fromBlock toBlock s of
           (Inl e, s') \<Rightarrow> (Inl e, s')
         | (Inr processedBlock, s') \<Rightarrow>
             (Inr processedBlock, upsertCursor env network processedBlock s')))"


section \<open>The block-range scheduler (\<^verbatim>\<open>worker.js\<close>)\<close>

definition CATCHUP_BATCH_SIZE :: int where
  "CATCHUP_BATCH_SIZE = 5000"

definition REALTIME_BATCH_SIZE :: int where
  "REALTIME_BATCH_SIZE = 100"

definition RECENT_HISTORY_BLOCKS :: int where
  "RECENT_HISTORY_BLOCKS = 100000"

definition MAX_ACCEPTABLE_GAP :: int where
  "MAX_ACCEPTABLE_GAP = 500000"

definition REALTIME_THRESHOLD :: int where
  "REALTIME_THRESHOLD = 200"

text \<open>
  \<^verbatim>\<open>UPDATE indexer_state SET last_indexed_block = $1, updated_at = NOW() WHERE chain = $2\<close>
\<close>

definition updateCursor :: "chain_env \<Rightarrow> network \<Rightarrow> int \<Rightarrow> state \<Rightarrow> state" where
  "updateCursor env network block s =
     (case indexer_state s network of
        None \<Rightarrow> s
      | Some row \<Rightarrow>
          s\<lparr>indexer_state :=
              (indexer_state s)(network \<mapsto>
                 row\<lparr>last_indexed_block := block, cur_updated_at := now env\<rparr>)\<rparr>)"

record start =
  fromBlock :: int
  jumpedAhead :: bool
  realtimeMode :: bool

text \<open>
  ``Determine starting block'': the part of the loop body of \<^verbatim>\<open>processNetworks\<close> that
  sets \<^verbatim>\<open>fromBlock\<close>, \<^verbatim>\<open>jumpedAhead\<close> and \<^verbatim>\<open>realtimeMode\<close> from the cursor that was read
  at the start of the pass, and moves the persisted cursor when it jumps ahead.
\<close>

definition determineStart ::
  "chain_env \<Rightarrow> network \<Rightarrow> int option \<Rightarrow> int \<Rightarrow> state \<Rightarrow> start \<times> state" where
  "determineStart env network lastIndexed currentBlock s =
     (case lastIndexed of
        Some lastIndexedBlock \<Rightarrow>
          (let gap = currentBlock - lastIndexedBlock;
               realtime = (gap \<le> REALTIME_THRESHOLD)
           in if gap > MAX_ACCEPTABLE_GAP then
                (let from = max 1 (currentBlock - RECENT_HISTORY_BLOCKS)
                 in (\<lparr>fromBlock = from, jumpedAhead = True, realtimeMode = realtime\<rparr>,
                     updateCursor env network (from - 1) s))
              else
                (\<lparr>fromBlock = lastIndexedBlock + 1, jumpedAhead = False,
                  realtimeMode = realtime\<rparr>, s))
      | None \<Rightarrow>
          (\<lparr>fromBlock = max 1 (currentBlock - RECENT_HISTORY_BLOCKS), jumpedAhead = False,
            realtimeMode = False\<rparr>, s))"

definition batchSize :: "start \<Rightarrow> int" where
  "batchSize st = (if realtimeMode st then REALTIME_BATCH_SIZE else CATCHUP_BATCH_SIZE)"

definition blocksToProcess :: "start \<Rightarrow> int \<Rightarrow> int" where
  "blocksToProcess st currentBlock = min (currentBlock - fromBlock st + 1) (batchSize st)"

definition toBlock :: "start \<Rightarrow> int \<Rightarrow> int" where
  "toBlock st currentBlock = fromBlock st + blocksToProcess st currentBlock - 1"

text \<open>
  The body of the loop for one main chain with a provider. Its \<^verbatim>\<open>catch\<close> logs the error
  and goes on to the next chain; the outcome keeps it visible.
\<close>

definition processNetwork ::
  "chain_env \<Rightarrow> network \<Rightarrow> int option \<Rightarrow> state \<Rightarrow> (unit, state) outcome" where
  "processNetwork env network lastIndexed s =
     (case getBlockNumber env of
        Inl e \<Rightarrow> (Inl e, s)
      | Inr currentBlock \<Rightarrow>
          (case determineStart env network lastIndexed currentBlock s of
             (st, s1) \<Rightarrow>
               if fromBlock st > currentBlock then (Inr (), s1)
               else
                 (case indexNetwork env network (fromBlock st) (toBlock st currentBlock) s1 of
                    (Inl e, s2) \<Rightarrow> (Inl e, s2)
                  | (Inr _, s2) \<Rightarrow> (Inr (), s2))))"

text \<open>
  What \<^verbatim>\<open>processNetworks\<close> is given: whether \<^verbatim>\<open>initializeServices\<close> succeeds, and the
  provider of each chain that has one.
\<close>

record world =
  initialized :: bool
  providers :: "network \<rightharpoonup> chain_env"

fun processEach ::
  "world \<Rightarrow> (network \<rightharpoonup> int) \<Rightarrow> (network \<times> network_config) list \<Rightarrow> state \<Rightarrow> state" where
  "processEach w lastIndexedBlocks [] s = s"
| "processEach w lastIndexedBlocks ((network, config) # rest) s =
     (case providers w network of
        None \<Rightarrow> processEach w lastIndexedBlocks rest s
      | Some env \<Rightarrow>
          if \<not> isMain config then processEach w lastIndexedBlocks rest s
          else processEach w lastIndexedBlocks rest
                 (snd (processNetwork env network (lastIndexedBlocks network) s)))"

definition processNetworks :: "world \<Rightarrow> state \<Rightarrow> (unit, state) outcome" where
  "processNetworks w s =
     (if \<not> initialized w then (Inl InitError, s)
      else (Inr (),
            processEach w (\<lambda>chain. map_option last_indexed_block (indexer_state s chain))
              NETWORKS s))"


section \<open>JavaScript numbers\<close>

text \<open>
  A JavaScript number is an IEEE 754 double; its value is a rational. \<open>fl\<close> rounds a
  rational to the nearest double, ties to the even significand (53 bits). \<^verbatim>\<open>parseFloat\<close>
  and \<^verbatim>\<open>Number\<close> of a decimal string are \<open>fl\<close> of the number the string denotes, and the
  difference of two doubles is \<open>fl\<close> of their exact difference. The exponent is not
  bounded: the amounts of this program (at least \<open>10\<^sup>-\<^sup>1\<^sup>8\<close> and below \<open>2\<^sup>2\<^sup>5\<^sup>6\<close> in
  magnitude, or zero) are far from overflow and underflow.
\<close>

definition pow2 :: "int \<Rightarrow> rat" where
  "pow2 e = (if 0 \<le> e then 2 ^ nat e else 1 / 2 ^ nat (- e))"

text \<open>The exponent \<open>e\<close> with \<open>2\<^sup>e \<le> a < 2\<^sup>e\<^sup>+\<^sup>1\<close>, for positive \<open>a\<close>.\<close>

definition ilog2 :: "rat \<Rightarrow> int" where
  "ilog2 a = (if 1 \<le> a then bitlen \<lfloor>a\<rfloor> - 1 else - bitlen (\<lceil>1 / a\<rceil> - 1))"

definition round_half_even :: "rat \<Rightarrow> int" where
  "round_half_even x =
     (let f = \<lfloor>x\<rfloor>; r = x - of_int f
      in if r < 1 / 2 then f else if 1 / 2 < r then f + 1 else if even f then f else f + 1)"

definition fl :: "rat \<Rightarrow> rat" where
  "fl x =
     (if x = 0 then 0
      else (let a = \<bar>x\<bar>; u = pow2 (ilog2 a - 52)
            in sgn x * of_int (round_half_even (a / u)) * u))"

text \<open>
  A number written to a \<^verbatim>\<open>DECIMAL(24, 8)\<close> column is rounded to eight decimals, half
  away from zero.
\<close>

definition dec8 :: "rat \<Rightarrow> units8" where
  "dec8 x = (if 0 \<le> x then \<lfloor>x * 10 ^ 8 + 1 / 2\<rfloor> else - \<lfloor>- x * 10 ^ 8 + 1 / 2\<rfloor>)"

text \<open>The number that \<^verbatim>\<open>parseFloat\<close> reads from a column or from \<^verbatim>\<open>formatUnits(x, 8)\<close>.\<close>

definition parseFloat8 :: "units8 \<Rightarrow> rat" where
  "parseFloat8 k = fl (of_int k / 10 ^ 8)"

section \<open>The reconciliation pass (\<^verbatim>\<open>reconciliation.js\<close>)\<close>

definition RECONCILIATION_THRESHOLD :: rat where
  "RECONCILIATION_THRESHOLD = fl (1 / 100)"

definition BATCH_SIZE_reconciliation :: nat where
  "BATCH_SIZE_reconciliation = 50"

record counts =
  total :: nat
  updated :: nat
  matched :: nat
  errors :: nat

definition chainAmountRaised :: "chain_campaign \<Rightarrow> rat" where
  "chainAmountRaised chainCampaign = parseFloat8 (int (cc_totalStable chainCampaign))"

definition dbAmountRaised :: "campaign_row \<Rightarrow> rat" where
  "dbAmountRaised dbCampaign = parseFloat8 (c_amount_raised dbCampaign)"

definition discrepancy :: "chain_campaign \<Rightarrow> campaign_row \<Rightarrow> rat" where
  "discrepancy chainCampaign dbCampaign =
     \<bar>fl (chainAmountRaised chainCampaign - dbAmountRaised dbCampaign)\<bar>"

definition reconciled_update :: "chain_env \<Rightarrow> chain_campaign \<Rightarrow> campaign_row \<Rightarrow> campaign_row" where
  "reconciled_update env chainCampaign row =
     row\<lparr>c_amount_raised := dec8 (chainAmountRaised chainCampaign),
         c_ended := cc_ended chainCampaign,
         c_updated_at := now env,
         c_last_reconciled := Some (now env)\<rparr>"

definition log_row :: "chain_env \<Rightarrow> nat \<Rightarrow> chain_campaign \<Rightarrow> campaign_row \<Rightarrow> reconciliation_row" where
  "log_row env campaignId chainCampaign dbCampaign =
     \<lparr>r_campaign_id = campaignId,
      r_previous_value = dec8 (dbAmountRaised dbCampaign),
      r_new_value = dec8 (chainAmountRaised chainCampaign),
      r_discrepancy = dec8 (discrepancy chainCampaign dbCampaign),
      r_reconciled_at = now env\<rparr>"

text \<open>
  The body that is mapped over the rows of a batch. The rows were read before the first
  batch; the contract is called directly, without \<^verbatim>\<open>withRetry\<close>. The closures of a
  batch run interleaved, each on its own campaign; the model runs them in the order of
  the batch, which decides nothing but the order of the log rows.
\<close>

definition reconcileCampaign ::
  "chain_env \<Rightarrow> nat \<times> campaign_row \<Rightarrow> counts \<times> state \<Rightarrow> counts \<times> state" where
  "reconcileCampaign env dbCampaign cs =
     (case cs of (c, s) \<Rightarrow>
        (case campaignsCall env (fst dbCampaign) 1 of
           Inl e \<Rightarrow> (c\<lparr>errors := errors c + 1\<rparr>, s)
         | Inr chainCampaign \<Rightarrow>
             if discrepancy chainCampaign (snd dbCampaign) > RECONCILIATION_THRESHOLD then
               (c\<lparr>updated := updated c + 1\<rparr>,
                s\<lparr>campaigns :=
                    update_where (fst dbCampaign) (reconciled_update env chainCampaign)
                      (campaigns s),
                  reconciliation_log := reconciliation_log s @
                    [log_row env (fst dbCampaign) chainCampaign (snd dbCampaign)]\<rparr>)
             else (c\<lparr>matched := matched c + 1\<rparr>, s)))"

function campaignBatches :: "'a list \<Rightarrow> 'a list list" where
  "campaignBatches rows =
     (if rows = [] then []
      else take BATCH_SIZE_reconciliation rows
             # campaignBatches (drop BATCH_SIZE_reconciliation rows))"
  by pat_completeness auto
termination
  by (relation "measure length") (auto simp: BATCH_SIZE_reconciliation_def)

declare campaignBatches.simps [simp del]

definition mainNetwork :: "network option" where
  "mainNetwork = map_option fst (find (\<lambda>(key, config). isMain config) NETWORKS)"

definition reconcileCampaigns :: "world \<Rightarrow> state \<Rightarrow> (counts, state) outcome" where
  "reconcileCampaigns w s =
     (case mainNetwork of
        None \<Rightarrow> (Inl InitError, s)
      | Some network \<Rightarrow>
          (case providers w network of
             None \<Rightarrow> (Inl InitError, s)
           | Some env \<Rightarrow>
               (let dbCampaigns = campaigns s;
                    initial = (\<lparr>total = length dbCampaigns, updated = 0, matched = 0,
                                errors = 0\<rparr>, s)
                in case fold (\<lambda>batch. fold (reconcileCampaign env) batch)
                          (campaignBatches dbCampaigns) initial of
                     (c, s') \<Rightarrow> (Inr c, s'))))"


section \<open>The donation relay (\<^verbatim>\<open>directDonationMonitor.js\<close>)\<close>

record receipt =
  rc_status :: nat

record tx_info =
  ti_nonce :: "nat option"

record fee_data =
  maxFeePerGas :: "nat option"
  maxPriorityFeePerGas :: "nat option"
  gasPrice :: "nat option"

text \<open>
  The node as the relay sees it while it handles one wallet. Amounts are in wei. The
  balance of a wallet is read up to two times for one wallet (when a donation is created
  and again when it is submitted); \<open>getBalance a k\<close> is the answer to read number \<open>k\<close>
  of address \<open>a\<close>, counted from \<open>0\<close>. \<open>walletOfKey\<close> is \<^verbatim>\<open>new ethers.Wallet(key, provider)\<close>:
  the address of the signer, or the error of a malformed key.
\<close>

record relay_env =
  clock :: timestamp
  getBalance :: "address \<Rightarrow> nat \<Rightarrow> error + nat"
  getTransactionReceipt :: "txhash \<Rightarrow> error + receipt option"
  getTransaction :: "txhash \<Rightarrow> error + tx_info option"
  getFeeData :: "error + fee_data"
  walletOfKey :: "string \<Rightarrow> error + address"
  estimateGas :: "address \<Rightarrow> nat \<Rightarrow> error + nat"
  getNonce :: "address \<Rightarrow> error + nat"
  sendTransaction :: "tx_request \<Rightarrow> error + txhash"

subsection \<open>\<^verbatim>\<open>CONFIG\<close>\<close>

definition MIN_DONATION_AMOUNT :: rat where
  "MIN_DONATION_AMOUNT = fl 1"

definition MAX_PENDING_CHECKS :: nat where
  "MAX_PENDING_CHECKS = 15"

definition GAS_PRICE_BOOST :: nat where
  "GAS_PRICE_BOOST = 120"

text \<open>\<^verbatim>\<open>ethers.parseEther\<close> of a decimal with one or two places, in wei.\<close>

definition parseEther_0_1 :: nat where
  "parseEther_0_1 = 10 ^ 17"

definition parseEther_0_05 :: nat where
  "parseEther_0_05 = 5 * 10 ^ 16"

subsection \<open>Fees\<close>

text \<open>\<^verbatim>\<open>a || b\<close> on values that are a BigInt or \<^verbatim>\<open>null\<close>: \<^verbatim>\<open>0n\<close> and \<^verbatim>\<open>null\<close> are falsy.\<close>

definition orElse :: "nat option \<Rightarrow> nat option \<Rightarrow> nat option" where
  "orElse a b = (case a of None \<Rightarrow> b | Some v \<Rightarrow> if v \<noteq> 0 then Some v else b)"

text \<open>
  \<^verbatim>\<open>(feeData.maxFeePerGas || feeData.gasPrice) * BigInt(boost) / BigInt(100)\<close> and
  \<^verbatim>\<open>(feeData.maxPriorityFeePerGas || feeData.gasPrice / 2n) * BigInt(boost) / BigInt(100)\<close>,
  as both \<^verbatim>\<open>replaceStuckTransaction\<close> and \<^verbatim>\<open>sendDonationTransaction\<close> compute them.
  Arithmetic on \<^verbatim>\<open>null\<close> throws; BigInt division truncates.
\<close>

definition boostedFees :: "nat \<Rightarrow> fee_data \<Rightarrow> error + nat \<times> nat" where
  "boostedFees boost feeData =
     (case orElse (maxFeePerGas feeData) (gasPrice feeData) of
        None \<Rightarrow> Inl (TypeError ''Cannot mix BigInt and other types'')
      | Some fee \<Rightarrow>
          (case orElse (maxPriorityFeePerGas feeData)
                  (map_option (\<lambda>g. g div 2) (gasPrice feeData)) of
             None \<Rightarrow> Inl (TypeError ''Cannot mix BigInt and other types'')
           | Some priority \<Rightarrow> Inr (fee * boost div 100, priority * boost div 100)))"

subsection \<open>Statements on \<^verbatim>\<open>direct_donations\<close>\<close>

text \<open>\<^verbatim>\<open>UPDATE direct_donations SET ... WHERE id = $n\<close>\<close>

definition update_donation ::
  "nat \<Rightarrow> (direct_donation_row \<Rightarrow> direct_donation_row) \<Rightarrow> state \<Rightarrow> state" where
  "update_donation donationId f s =
     s\<lparr>direct_donations :=
         map (\<lambda>row. if dd_id row = donationId then f row else row) (direct_donations s)\<rparr>"

definition mark_failed :: "relay_env \<Rightarrow> nat \<Rightarrow> state \<Rightarrow> state" where
  "mark_failed env donationId s =
     update_donation donationId
       (\<lambda>row. row\<lparr>dd_status := Failed, dd_processed_at := Some (clock env)\<rparr>) s"

text \<open>The value of the \<^verbatim>\<open>SERIAL\<close> key of the next row.\<close>

definition next_donation_id :: "state \<Rightarrow> nat" where
  "next_donation_id s = Suc (fold max (map dd_id (direct_donations s)) 0)"


subsection \<open>\<^verbatim>\<open>sendDonationTransaction\<close>\<close>

text \<open>
  \<open>k\<close> is the number of balance reads already made for this wallet. A balance below
  \<^verbatim>\<open>parseEther("0.1")\<close> returns at once; every exception of the \<^verbatim>\<open>try\<close> block, and a
  donation amount that is not positive, mark the row as failed.
\<close>

definition sendDonationTransaction ::
  "relay_env \<Rightarrow> nat \<Rightarrow> nat \<Rightarrow> wallet_row \<Rightarrow> state \<Rightarrow> state" where
  "sendDonationTransaction env k donationId wallet s =
     (case getBalance env (wallet_address wallet) k of
        Inl e \<Rightarrow> mark_failed env donationId s
      | Inr balance \<Rightarrow>
          if balance < parseEther_0_1 then s
          else
     (case walletOfKey env (private_key wallet) of
        Inl e \<Rightarrow> mark_failed env donationId s
      | Inr signer \<Rightarrow>
     (case getFeeData env of
        Inl e \<Rightarrow> mark_failed env donationId s
      | Inr feeData \<Rightarrow>
     (case boostedFees GAS_PRICE_BOOST feeData of
        Inl e \<Rightarrow> mark_failed env donationId s
      | Inr (maxFee, maxPriorityFee) \<Rightarrow>
     (case estimateGas env signer (campaign_id wallet) of
        Inl e \<Rightarrow> mark_failed env donationId s
      | Inr gasEstimate \<Rightarrow>
     (case orElse (Some maxFee) (gasPrice feeData) of
        None \<Rightarrow> mark_failed env donationId s
      | Some price \<Rightarrow>
          (let gasLimit = gasEstimate * 130 div 100;
               gasCost = gasLimit * price;
               gasCostWithBuffer = gasCost * 150 div 100;
               minReserve = parseEther_0_05;
               finalGasReserve =
                 (if gasCostWithBuffer > minReserve then gasCostWithBuffer else minReserve);
               donationAmount = int balance - int finalGasReserve
           in if donationAmount \<le> 0 then mark_failed env donationId s
              else
     (case getNonce env signer of
        Inl e \<Rightarrow> mark_failed env donationId s
      | Inr nonce \<Rightarrow>
          (let tx = \<lparr>tx_from = signer, tx_to = Donate (campaign_id wallet),
                     tx_value = donationAmount, tx_nonce = nonce,
                     tx_maxFeePerGas = maxFee, tx_maxPriorityFeePerGas = maxPriorityFee,
                     tx_gasLimit = gasLimit\<rparr>
           in case sendTransaction env tx of
                Inl e \<Rightarrow> mark_failed env donationId s
              | Inr hash \<Rightarrow>
                  update_donation donationId
                    (\<lambda>row. row\<lparr>dd_contract_tx_hash := Some hash, dd_check_count := Some 0,
                                dd_tx_nonce := Some nonce\<rparr>)
                    (s\<lparr>submitted := submitted s @ [tx]\<rparr>))))))))))"

subsection \<open>\<^verbatim>\<open>replaceStuckTransaction\<close>\<close>

text \<open>Every exception is caught and logged: the state stays as it was.\<close>

definition replaceStuckTransaction ::
  "relay_env \<Rightarrow> nat \<Rightarrow> txhash \<Rightarrow> wallet_row \<Rightarrow> nat \<Rightarrow> state \<Rightarrow> state" where
  "replaceStuckTransaction env donationId oldTxHash wallet nonce s =
     (case getFeeData env of
        Inl e \<Rightarrow> s
      | Inr feeData \<Rightarrow>
     (case boostedFees 150 feeData of
        Inl e \<Rightarrow> s
      | Inr (maxFee, maxPriorityFee) \<Rightarrow>
     (case walletOfKey env (private_key wallet) of
        Inl e \<Rightarrow> s
      | Inr signer \<Rightarrow>
          (let replacementTx =
                 \<lparr>tx_from = signer, tx_to = Transfer (wallet_address wallet), tx_value = 0,
                  tx_nonce = nonce, tx_maxFeePerGas = maxFee,
                  tx_maxPriorityFeePerGas = maxPriorityFee, tx_gasLimit = 21000\<rparr>
           in case sendTransaction env replacementTx of
                Inl e \<Rightarrow> s
              | Inr hash \<Rightarrow>
                  update_donation donationId
                    (\<lambda>row. row\<lparr>dd_contract_tx_hash := Some hash, dd_check_count := Some 0\<rparr>)
                    (s\<lparr>submitted := submitted s @ [replacementTx]\<rparr>)))))"

subsection \<open>\<^verbatim>\<open>handlePendingDonation\<close>\<close>

text \<open>
  The row as \<^verbatim>\<open>processWallet\<close> selects it: \<^verbatim>\<open>id\<close>, \<^verbatim>\<open>contract_tx_hash\<close> and \<^verbatim>\<open>check_count\<close>.
  The column \<^verbatim>\<open>tx_nonce\<close> is not selected, so \<^verbatim>\<open>donation.tx_nonce\<close> is \<^verbatim>\<open>undefined\<close> there.
\<close>

record pending_donation =
  pd_id :: nat
  pd_contract_tx_hash :: "txhash option"
  pd_check_count :: "nat option"
  pd_tx_nonce :: "nat option"

text \<open>\<^verbatim>\<open>!txHash\<close> holds for \<^verbatim>\<open>null\<close> and for the empty string.\<close>

definition truthy_hash :: "txhash option \<Rightarrow> txhash option" where
  "truthy_hash h = (case h of None \<Rightarrow> None | Some t \<Rightarrow> if t = [] then None else Some t)"

definition handlePendingDonation ::
  "relay_env \<Rightarrow> pending_donation \<Rightarrow> wallet_row \<Rightarrow> state \<Rightarrow> state" where
  "handlePendingDonation env donation wallet s =
     (case truthy_hash (pd_contract_tx_hash donation) of
        None \<Rightarrow> sendDonationTransaction env 0 (pd_id donation) wallet s
      | Some txHash \<Rightarrow>
          (case getTransactionReceipt env txHash of
             Inl e \<Rightarrow> s
           | Inr (Some receipt) \<Rightarrow>
               update_donation (pd_id donation)
                 (\<lambda>row. row\<lparr>dd_status := (if rc_status receipt = 1 then Completed else Failed),
                             dd_processed_at := Some (clock env)\<rparr>) s
           | Inr None \<Rightarrow>
               (let newCheckCount =
                      (case pd_check_count donation of None \<Rightarrow> 0 | Some c \<Rightarrow> c) + 1;
                    s1 = update_donation (pd_id donation)
                           (\<lambda>row. row\<lparr>dd_check_count := Some newCheckCount\<rparr>) s
                in if newCheckCount \<ge> MAX_PENDING_CHECKS then
                     (case pd_tx_nonce donation of
                        Some nonce \<Rightarrow>
                          replaceStuckTransaction env (pd_id donation) txHash wallet nonce s1
                      | None \<Rightarrow>
                          (case getTransaction env txHash of
                             Inl e \<Rightarrow> s1
                           | Inr None \<Rightarrow> s1
                           | Inr (Some tx) \<Rightarrow>
                               (case ti_nonce tx of
                                  None \<Rightarrow> s1
                                | Some nonce \<Rightarrow>
                                    replaceStuckTransaction env (pd_id donation) txHash
                                      wallet nonce s1)))
                   else s1)))"

subsection \<open>\<^verbatim>\<open>checkBalanceAndCreateDonation\<close>\<close>

text \<open>\<^verbatim>\<open>Number(ethers.formatEther(balance))\<close>\<close>

definition balanceInMatic :: "nat \<Rightarrow> rat" where
  "balanceInMatic balance = fl (of_nat balance / 10 ^ 18)"

text \<open>
  \<^verbatim>\<open>direct_donations.campaign_id\<close> references \<^verbatim>\<open>campaigns(id)\<close>; a failing insert is caught
  like every other exception of the function.
\<close>

definition checkBalanceAndCreateDonation :: "relay_env \<Rightarrow> wallet_row \<Rightarrow> state \<Rightarrow> state" where
  "checkBalanceAndCreateDonation env wallet s =
     (case getBalance env (wallet_address wallet) 0 of
        Inl e \<Rightarrow> s
      | Inr balance \<Rightarrow>
          if balanceInMatic balance < MIN_DONATION_AMOUNT then s
          else if map_of (campaigns s) (campaign_id wallet) = None then s
          else
            (let donationId = next_donation_id s;
                 row = \<lparr>dd_id = donationId, dd_campaign_id = campaign_id wallet,
                        dd_wallet_address = wallet_address wallet,
                        dd_amount = dec8 (balanceInMatic balance), dd_status = Pending,
                        dd_source_tx_hash = clock env, dd_contract_tx_hash = None,
                        dd_created_at = clock env, dd_processed_at = None,
                        dd_check_count = Some 0, dd_tx_nonce = None\<rparr>
             in sendDonationTransaction env 1 donationId wallet
                  (s\<lparr>direct_donations := direct_donations s @ [row]\<rparr>)))"

subsection \<open>\<^verbatim>\<open>processWallet\<close> and \<^verbatim>\<open>checkWalletsAndProcess\<close>\<close>

text \<open>
  \<^verbatim>\<open>SELECT id, contract_tx_hash, check_count FROM direct_donations
     WHERE wallet_address = $1 AND status = 'pending' LIMIT 1\<close>
\<close>

definition pendingDonation :: "wallet_row \<Rightarrow> state \<Rightarrow> pending_donation option" where
  "pendingDonation wallet s =
     map_option
       (\<lambda>row. \<lparr>pd_id = dd_id row, pd_contract_tx_hash = dd_contract_tx_hash row,
                pd_check_count = dd_check_count row, pd_tx_nonce = None\<rparr>)
       (find (\<lambda>row. dd_wallet_address row = wallet_address wallet \<and> dd_status row = Pending)
          (direct_donations s))"

definition processWallet :: "relay_env \<Rightarrow> wallet_row \<Rightarrow> state \<Rightarrow> state" where
  "processWallet env wallet s =
     (case pendingDonation wallet s of
        Some donation \<Rightarrow> handlePendingDonation env donation wallet s
      | None \<Rightarrow> checkBalanceAndCreateDonation env wallet s)"

text \<open>One tick of the monitor: the wallets one after the other.\<close>

definition checkWalletsAndProcess :: "relay_env \<Rightarrow> state \<Rightarrow> state" where
  "checkWalletsAndProcess env s = fold (processWallet env) (campaign_wallets s) s"


section \<open>Sequences of scheduler runs\<close>

text \<open>The persisted cursor of a chain, when it has one.\<close>

definition cursor :: "state \<Rightarrow> network \<Rightarrow> int option" where
  "cursor s chain = map_option last_indexed_block (indexer_state s chain)"

text \<open>
  The scheduler is started again and again, each time in the world of that moment; a run
  that throws leaves the state it reached.
\<close>

fun schedulerRuns :: "world list \<Rightarrow> state \<Rightarrow> state" where
  "schedulerRuns [] s = s"
| "schedulerRuns (w # ws) s = schedulerRuns ws (snd (processNetworks w s))"

section \<open>Inputs for the concrete cases\<close>

text \<open>
  A node whose head is at block \<open>h\<close> and on which the contract emitted no event; a node
  that, in addition, refuses a log query over more than 10,000 blocks; the empty mirror;
  and the mirror whose cursor for the main chain is at block \<open>c\<close>.
\<close>

definition quiet_chain :: "int \<Rightarrow> chain_env" where
  "quiet_chain h =
     \<lparr>now = 0, getBlockNumber = Inr h,
      queryCampaignCreated = (\<lambda>f t n. Inr []),
      queryCampaignEdited = (\<lambda>f t n. Inr []),
      queryCampaignEnded = (\<lambda>f t n. Inr []),
      queryDonationMade = (\<lambda>f t n. Inr []),
      queryWithdrawalRequested = (\<lambda>f t n. Inr []),
      queryWithdrawalProcessed = (\<lambda>f t n. Inr []),
      campaignsCall = (\<lambda>i n. Inl (RpcError ''not read''))\<rparr>"


definition empty_state :: state where
  "empty_state =
     \<lparr>campaigns = [], donations = [], transactions = [], withdrawals = [],
      indexer_state = Map.empty, reconciliation_log = [], campaign_wallets = [],
      direct_donations = [], submitted = []\<rparr>"

definition cursor_at :: "int \<Rightarrow> state" where
  "cursor_at c =
     empty_state\<lparr>indexer_state :=
       [''polygon'' \<mapsto> \<lparr>last_indexed_block = c, cur_updated_at = 0\<rparr>]\<rparr>"

text \<open>The world in which the main chain is served by such a node.\<close>

definition world_at :: "int \<Rightarrow> world" where
  "world_at h = \<lparr>initialized = True, providers = [''polygon'' \<mapsto> quiet_chain h]\<rparr>"

text \<open>
  The mirrored total of a campaign, and what a list of donation events gives to a
  campaign.
\<close>

definition amountRaised :: "state \<Rightarrow> nat \<Rightarrow> units8 option" where
  "amountRaised s campaignId = map_option c_amount_raised (map_of (campaigns s) campaignId)"

definition donated :: "donation_event list \<Rightarrow> nat \<Rightarrow> units8" where
  "donated events campaignId =
     sum_list (map (\<lambda>event. int (de_netUSDValue event))
                 (filter (\<lambda>event. de_campaignId event = campaignId) events))"

text \<open>
  A mirror with one campaign, and a node that reports one donation of 5 units to that
  campaign in every range.
\<close>

definition sample_campaign :: campaign_row where
  "sample_campaign =
     \<lparr>c_name = ''well'', c_description = ''a well for the village'',
      c_target_amount = 100000000000, c_social_link = [], c_image_id = 3,
      c_creator = ''0xc0ffee'', c_ended = False, c_amount_raised = 0,
      c_created_at = 0, c_updated_at = 0, c_chain = ''polygon'', c_tx_hash = ''0x01'',
      c_last_reconciled = None\<rparr>"

definition one_campaign :: state where
  "one_campaign = empty_state\<lparr>campaigns := [(1, sample_campaign)]\<rparr>"

definition sample_donation :: donation_event where
  "sample_donation =
     \<lparr>de_campaignId = 1, de_donor = ''0xd0'', de_netUSDValue = 500000000,
      de_transactionHash = ''0x02''\<rparr>"

definition donation_chain :: chain_env where
  "donation_chain = (quiet_chain 1000)\<lparr>queryDonationMade := (\<lambda>f t n. Inr [sample_donation])\<rparr>"

text \<open>
  The campaigns table without the bookkeeping stamp \<^verbatim>\<open>updated_at\<close>, which every
  \<^verbatim>\<open>UPDATE\<close> sets to the time of its transaction: the mirror of the contract's
  campaigns in all other columns.
\<close>

definition lifecycle_view :: "(nat \<times> campaign_row) list \<Rightarrow> (nat \<times> campaign_row) list" where
  "lifecycle_view table = map (\<lambda>(k, row). (k, row\<lparr>c_updated_at := 0\<rparr>)) table"

text \<open>
  What the edited events and the ended events of a range do to the row of campaign \<open>k\<close>,
  and the final amount that the last ended event of \<open>k\<close> carries.
\<close>

definition edit_row ::
  "chain_env \<Rightarrow> (nat \<rightharpoonup> chain_campaign) \<Rightarrow> edited_event list \<Rightarrow> nat
     \<Rightarrow> campaign_row \<Rightarrow> campaign_row" where
  "edit_row env m events k row =
     fold (\<lambda>event r. if ee_campaignId event = k
                      then (case m k of None \<Rightarrow> r | Some campaign \<Rightarrow> edited_update env campaign r)
                      else r) events row"

definition end_row :: "chain_env \<Rightarrow> ended_event list \<Rightarrow> nat \<Rightarrow> campaign_row \<Rightarrow> campaign_row" where
  "end_row env events k row =
     fold (\<lambda>event r. if ne_campaignId event = k
                      then ended_update env (int (ne_finalStableValue event)) r
                      else r) events row"

fun finalFor :: "ended_event list \<Rightarrow> nat \<Rightarrow> units8 option" where
  "finalFor [] k = None"
| "finalFor (event # events) k =
     (case finalFor events k of
        Some final \<Rightarrow> Some final
      | None \<Rightarrow> if ne_campaignId event = k then Some (int (ne_finalStableValue event))
                else None)"


text \<open>The state after a category whose writes either commit or are rolled back.\<close>

definition settled :: "error + state \<Rightarrow> state \<Rightarrow> state" where
  "settled r s = (case r of Inl e \<Rightarrow> s | Inr s' \<Rightarrow> s')"


text \<open>
  A node that reports the creation, an edit and the end of campaign 7 in every range, and
  the struct it returns for the campaign.
\<close>

definition sample_chain_campaign :: chain_campaign where
  "sample_chain_campaign =
     \<lparr>cc_name = ''school'', cc_target = 50, cc_description = ''a roof'',
      cc_socialLink = ''x.com/school'', cc_imageId = 4, cc_creator = ''0xc0ffee'',
      cc_ended = True, cc_totalStable = 12\<rparr>"

definition lifecycle_chain :: chain_env where
  "lifecycle_chain =
     (quiet_chain 1000)
       \<lparr>now := 10,
        queryCampaignCreated :=
          (\<lambda>f t n. Inr [\<lparr>ce_campaignId = 7, ce_creator = ''0xc0ffee'',
                             ce_transactionHash = ''0x0a''\<rparr>]),
        queryCampaignEdited :=
          (\<lambda>f t n. Inr [\<lparr>ee_campaignId = 7, ee_transactionHash = ''0x0b''\<rparr>]),
        queryCampaignEnded :=
          (\<lambda>f t n. Inr [\<lparr>ne_campaignId = 7, ne_finalStableValue = 12,
                             ne_transactionHash = ''0x0c''\<rparr>]),
        campaignsCall := (\<lambda>i n. Inr sample_chain_campaign)\<rparr>"

text \<open>
  The mirrored totals by campaign; and the condition that every mirrored total is not
  negative and stays within \<^verbatim>\<open>DECIMAL(24, 8)\<close> when \<open>n\<close> times the donations of the
  events are added to it.
\<close>

definition amounts :: "state \<Rightarrow> (nat \<times> units8) list" where
  "amounts s = map (\<lambda>(k, row). (k, c_amount_raised row)) (campaigns s)"

definition room :: "int \<Rightarrow> donation_event list \<Rightarrow> state \<Rightarrow> bool" where
  "room n events s =
     list_all (\<lambda>(k, a). 0 \<le> a \<and> a + n * donated events k < 10 ^ 24) (amounts s)"


text \<open>
  A node that reports a donation to campaign 2, which the mirror \<open>one_campaign\<close> does not
  hold, and a node that reports a donation of \<open>10\<^sup>2\<^sup>4\<close> units to campaign 1.
\<close>

definition stray_donation :: donation_event where
  "stray_donation =
     \<lparr>de_campaignId = 2, de_donor = ''0xd0'', de_netUSDValue = 500000000,
      de_transactionHash = ''0x03''\<rparr>"

definition stray_chain :: chain_env where
  "stray_chain = (quiet_chain 1000)\<lparr>queryDonationMade := (\<lambda>f t n. Inr [stray_donation])\<rparr>"


definition huge_donation :: donation_event where
  "huge_donation =
     \<lparr>de_campaignId = 1, de_donor = ''0xd0'',
      de_netUSDValue = 1000000000000000000000000, de_transactionHash = ''0x04''\<rparr>"

definition huge_chain :: chain_env where
  "huge_chain = (quiet_chain 1000)\<lparr>queryDonationMade := (\<lambda>f t n. Inr [huge_donation])\<rparr>"

section \<open>The indexer leaves the cursor alone\<close>

text \<open>
  No event category writes \<^verbatim>\<open>indexer_state\<close>: the cursor changes only where
  \<^verbatim>\<open>indexNetwork\<close> and the scheduler write it.
\<close>

lemma fold_applyEdited_cursor:
  "indexer_state (fold (applyEdited env network m) events s) = indexer_state s"
  by (induction events arbitrary: s) (auto simp: applyEdited_def split: option.splits)

lemma fold_applyEnded_cursor:
  "indexer_state (fold (applyEnded env) events s) = indexer_state s"
  by (induction events arbitrary: s) (auto simp: applyEnded_def)

lemma applyDonations_cursor:
  "applyDonations env events s = Inr s' \<Longrightarrow> indexer_state s' = indexer_state s"
proof (induction events arbitrary: s)
  case Nil
  then show ?case by simp
next
  case (Cons event events)
  from Cons.prems obtain s1 where 1: "applyDonation env event s = Inr s1"
    and 2: "applyDonations env events s1 = Inr s'"
    by (auto split: sum.splits)
  from 1 have "indexer_state s1 = indexer_state s"
    by (auto simp: applyDonation_def split: sum.splits)
  with Cons.IH[OF 2] show ?case by simp
qed

lemma fold_applyProcessed_cursor:
  "indexer_state (fold (applyProcessed env network) events s) = indexer_state s"
  by (induction events arbitrary: s) (auto simp: applyProcessed_def split: option.splits)

lemma writeCampaignEvents_cursor:
  "writeCampaignEvents env network m cs es ns s = Inr s' \<Longrightarrow> indexer_state s' = indexer_state s"
  by (auto simp: writeCampaignEvents_def Let_def insertCreated_def fold_applyEdited_cursor
      fold_applyEnded_cursor split: sum.splits if_splits)

lemma indexCampaignEvents_cursor:
  "indexer_state (snd (indexCampaignEvents env network f t s)) = indexer_state s"
  by (auto simp: indexCampaignEvents_def split: sum.split dest: writeCampaignEvents_cursor)

lemma indexDonationEvents_cursor:
  "indexer_state (snd (indexDonationEvents env network f t s)) = indexer_state s"
proof -
  have "indexer_state s' = indexer_state s"
    if "writeDonationEvents env network events s = Inr s'" for events s'
    using that
    by (auto simp: writeDonationEvents_def split: if_splits sum.splits
        dest!: applyDonations_cursor)
  then show ?thesis
    by (auto simp: indexDonationEvents_def split: sum.split)
qed

lemma indexWithdrawalEvents_cursor:
  "indexer_state (snd (indexWithdrawalEvents env network f t s)) = indexer_state s"
  by (auto simp: indexWithdrawalEvents_def writeWithdrawalEvents_def Let_def
      fold_applyProcessed_cursor split: sum.split)

lemma indexNetworkChunk_cursor:
  "indexer_state (snd (indexNetworkChunk env network f t s)) = indexer_state s"
proof (cases "network_isMain network")
  case (Inl e)
  then show ?thesis by (simp add: indexNetworkChunk_def)
next
  case (Inr main)
  show ?thesis
  proof (cases main)
    case False
    with Inr show ?thesis by (simp add: indexNetworkChunk_def)
  next
    case True
    obtain r1 s1 where 1: "indexCampaignEvents env network f t s = (r1, s1)"
      by fastforce
    have c1: "indexer_state s1 = indexer_state s"
      using indexCampaignEvents_cursor[of env network f t s] by (simp add: 1)
    obtain r2 s2 where 2: "indexDonationEvents env network f t s1 = (r2, s2)"
      by fastforce
    have c2: "indexer_state s2 = indexer_state s"
      using indexDonationEvents_cursor[of env network f t s1] by (simp add: 2 c1)
    obtain r3 s3 where 3: "indexWithdrawalEvents env network f t s2 = (r3, s3)"
      by fastforce
    have c3: "indexer_state s3 = indexer_state s"
      using indexWithdrawalEvents_cursor[of env network f t s2] by (simp add: 3 c2)
    show ?thesis
      by (cases r1; cases r2; cases r3)
         (simp_all add: indexNetworkChunk_def Inr True 1 2 3 c1 c2 c3)
  qed
qed

lemma indexNetworkChunk_result:
  assumes "indexNetworkChunk env network f t s = (Inr b, s')"
  shows "b = t"
proof (cases "network_isMain network")
  case (Inl e)
  with assms show ?thesis by (simp add: indexNetworkChunk_def)
next
  case (Inr main)
  obtain r1 s1 where 1:
    "(if main then indexCampaignEvents env network f t s else (Inr (), s)) = (r1, s1)"
    by fastforce
  obtain r2 s2 where 2:
    "(if main then indexDonationEvents env network f t s1 else (Inr (), s1)) = (r2, s2)"
    by fastforce
  obtain r3 s3 where 3:
    "(if main then indexWithdrawalEvents env network f t s2 else (Inr (), s2)) = (r3, s3)"
    by fastforce
  have "indexNetworkChunk env network f t s =
          (case r1 of Inl e \<Rightarrow> (Inl e, s1) | Inr _ \<Rightarrow>
            (case r2 of Inl e \<Rightarrow> (Inl e, s2) | Inr _ \<Rightarrow>
              (case r3 of Inl e \<Rightarrow> (Inl e, s3) | Inr _ \<Rightarrow> (Inr t, s3))))"
    by (simp only: indexNetworkChunk_def Inr sum.case 1 2 3 prod.case)
  with assms show ?thesis
    by (cases r1; cases r2; cases r3) simp_all
qed


lemma processChunks_cursor:
  "indexer_state (snd (processChunks env network chunks b s)) = indexer_state s"
proof (induction chunks arbitrary: b s)
  case Nil
  show ?case by simp
next
  case (Cons chunk chunks)
  obtain f t where chunk: "chunk = (f, t)" by (cases chunk)
  obtain r s1 where 1: "indexNetworkChunk env network f t s = (r, s1)" by fastforce
  have c1: "indexer_state s1 = indexer_state s"
    using indexNetworkChunk_cursor[of env network f t s] by (simp add: 1)
  show ?case
    by (cases r) (simp_all add: chunk 1 c1 Cons.IH)
qed

lemma processChunks_result:
  assumes "processChunks env network chunks b s = (Inr b', s')"
  shows "b' = last (b # map snd chunks)"
  using assms
proof (induction chunks arbitrary: b s)
  case Nil
  then show ?case by simp
next
  case (Cons chunk chunks)
  obtain f t where chunk: "chunk = (f, t)" by (cases chunk)
  obtain r s1 where 1: "indexNetworkChunk env network f t s = (r, s1)" by fastforce
  show ?case
  proof (cases r)
    case (Inl e)
    with Cons.prems show ?thesis by (simp add: chunk 1)
  next
    case (Inr p)
    have "p = t" using 1 Inr indexNetworkChunk_result by blast
    with Cons.prems Cons.IH[of p s1] show ?thesis by (simp add: chunk 1 Inr)
  qed
qed

lemma chunksFrom_bounds:
  "(a, b) \<in> set (chunksFrom i t) \<Longrightarrow> i \<le> a \<and> a \<le> b \<and> b \<le> t"
proof (induction i t rule: chunksFrom.induct)
  case (1 i t)
  show ?case
  proof (cases "i < t")
    case True
    with "1.prems" have "(a, b) = (i, min (i + MAX_BLOCK_RANGE - 1) t)
        \<or> (a, b) \<in> set (chunksFrom (i + MAX_BLOCK_RANGE) t)"
      by (subst (asm) chunksFrom.simps) simp
    then show ?thesis
    proof
      assume "(a, b) = (i, min (i + MAX_BLOCK_RANGE - 1) t)"
      with True show ?thesis by (auto simp: MAX_BLOCK_RANGE_def)
    next
      assume "(a, b) \<in> set (chunksFrom (i + MAX_BLOCK_RANGE) t)"
      with "1.IH"[OF True] show ?thesis by (auto simp: MAX_BLOCK_RANGE_def)
    qed
  next
    case False
    with "1.prems" show ?thesis by (subst (asm) chunksFrom.simps) simp
  qed
qed

lemma chunksFrom_nonempty: "i < t \<Longrightarrow> chunksFrom i t \<noteq> []"
  by (subst chunksFrom.simps) simp

text \<open>What \<^verbatim>\<open>indexNetwork\<close> does to the cursor.\<close>

lemma indexNetwork_cursor:
  assumes "indexNetwork env network f t s = (r, s')" and "f \<le> t"
  shows "case r of
           Inl e \<Rightarrow> indexer_state s' = indexer_state s
         | Inr b \<Rightarrow> f \<le> b \<and> b \<le> t \<and>
             indexer_state s' =
               (indexer_state s)(network \<mapsto> \<lparr>last_indexed_block = b, cur_updated_at = now env\<rparr>)"
proof (cases "t - f > MAX_BLOCK_RANGE")
  case True
  obtain r1 s1 where 1: "processChunks env network (chunksFrom f t) f s = (r1, s1)"
    by fastforce
  have c1: "indexer_state s1 = indexer_state s"
    using processChunks_cursor[of env network "chunksFrom f t" f s] by (simp add: 1)
  show ?thesis
  proof (cases r1)
    case (Inl e)
    with assms True 1 c1 show ?thesis by (auto simp: indexNetwork_def)
  next
    case (Inr b)
    have ne: "chunksFrom f t \<noteq> []"
      using True by (intro chunksFrom_nonempty) (simp add: MAX_BLOCK_RANGE_def)
    have "b = last (f # map snd (chunksFrom f t))"
      using 1 Inr processChunks_result by blast
    then have "b = snd (last (chunksFrom f t))"
      using ne by (simp add: last_map)
    moreover have "last (chunksFrom f t) \<in> set (chunksFrom f t)"
      using ne by simp
    ultimately have "f \<le> b \<and> b \<le> t"
      using chunksFrom_bounds[of "fst (last (chunksFrom f t))" b f t] by auto
    with assms True 1 c1 Inr show ?thesis
      by (auto simp: indexNetwork_def upsertCursor_def)
  qed
next
  case False
  obtain r1 s1 where 1: "indexNetworkChunk env network f t s = (r1, s1)"
    by fastforce
  have c1: "indexer_state s1 = indexer_state s"
    using indexNetworkChunk_cursor[of env network f t s] by (simp add: 1)
  show ?thesis
  proof (cases r1)
    case (Inl e)
    with assms False 1 c1 show ?thesis by (auto simp: indexNetwork_def)
  next
    case (Inr b)
    then have "b = t" using 1 indexNetworkChunk_result by blast
    with assms False 1 c1 Inr show ?thesis
      by (auto simp: indexNetwork_def upsertCursor_def)
  qed
qed



section \<open>The scheduler\<close>

lemma determineStart_no_jump:
  assumes "h - c \<le> MAX_ACCEPTABLE_GAP"
  shows "determineStart env network (Some c) h s =
           (\<lparr>fromBlock = c + 1, jumpedAhead = False,
             realtimeMode = (h - c \<le> REALTIME_THRESHOLD)\<rparr>, s)"
  using assms by (simp add: determineStart_def Let_def)

text \<open>
  Claim C6. A scheduler run on a chain with cursor \<open>c\<close> and head \<open>h\<close> that does not jump
  ahead (the gap \<open>h - c\<close> is at most 500,000) starts at block \<open>c + 1\<close> with batch
  size 100 when the gap is at most 200 and 5000 otherwise, ends at
  \<open>toBlock = min h (fromBlock + batchSize - 1)\<close>, and hands exactly the range
  \<open>[c + 1, toBlock]\<close> to \<^verbatim>\<open>indexNetwork\<close>; when the head is not beyond the cursor the
  range is empty and nothing is indexed. For head 1000 and cursor 950 the range is
  \<open>[951, 1000]\<close>.
\<close>

theorem batch_sizing:
  assumes "getBlockNumber env = Inr h"
    and "h - c \<le> 500000"
  shows "(let st = fst (determineStart env network (Some c) h s)
          in \<not> jumpedAhead st \<and> fromBlock st = c + 1
             \<and> batchSize st = (if h - c \<le> 200 then 100 else 5000)
             \<and> toBlock st h = min h (fromBlock st + batchSize st - 1)
             \<and> processNetwork env network (Some c) s =
                 (if h < c + 1 then (Inr (), s)
                  else (case indexNetwork env network (c + 1) (toBlock st h) s of
                          (Inl e, s2) \<Rightarrow> (Inl e, s2)
                        | (Inr b, s2) \<Rightarrow> (Inr (), s2))))"
proof -
  have gap: "h - c \<le> MAX_ACCEPTABLE_GAP"
    using assms(2) by (simp add: MAX_ACCEPTABLE_GAP_def)
  note ds = determineStart_no_jump[OF gap, of env network s]
  show ?thesis
    unfolding Let_def ds fst_conv
    by (auto simp: batchSize_def toBlock_def blocksToProcess_def processNetwork_def assms(1) ds
        REALTIME_THRESHOLD_def REALTIME_BATCH_SIZE_def CATCHUP_BATCH_SIZE_def)
qed

theorem batch_sizing_witness:
  "getBlockNumber (quiet_chain 1000) = Inr 1000 \<and> (1000::int) - 950 \<le> 500000
   \<and> batchSize (fst (determineStart (quiet_chain 1000) ''polygon'' (Some 950) 1000 (cursor_at 950))) = 100
   \<and> processNetwork (quiet_chain 1000) ''polygon'' (Some 950) (cursor_at 950) =
       (case indexNetwork (quiet_chain 1000) ''polygon'' 951 1000 (cursor_at 950) of
          (Inl e, s2) \<Rightarrow> (Inl e, s2)
        | (Inr b, s2) \<Rightarrow> (Inr (), s2))"
proof -
  have h: "getBlockNumber (quiet_chain 1000) = Inr 1000"
    by (simp add: quiet_chain_def)
  have g: "(1000::int) - 950 \<le> 500000" by simp
  show ?thesis
    using batch_sizing[OF h g, of "''polygon''" "cursor_at 950"] h
    by (simp add: Let_def)
qed


lemma toBlock_ge:
  assumes "fromBlock st \<le> h"
  shows "fromBlock st \<le> toBlock st h"
  using assms
  by (auto simp: toBlock_def blocksToProcess_def batchSize_def REALTIME_BATCH_SIZE_def
      CATCHUP_BATCH_SIZE_def min_def)

lemma indexNetwork_monotone:
  assumes "cursor s chain = Some c" and "f \<le> t"
    and "chain = network \<longrightarrow> c \<le> f"
  shows "\<exists>c'. cursor (snd (indexNetwork env network f t s)) chain = Some c' \<and> c \<le> c'"
proof -
  obtain r s' where 1: "indexNetwork env network f t s = (r, s')" by fastforce
  note ic = indexNetwork_cursor[OF 1 assms(2)]
  show ?thesis
  proof (cases r)
    case (Inl e)
    with ic assms(1) show ?thesis by (auto simp: 1 cursor_def)
  next
    case (Inr b)
    with ic assms show ?thesis by (auto simp: 1 cursor_def)
  qed
qed

lemma processNetwork_after_start:
  assumes ds: "determineStart env network li h s = (st, s1)"
    and head: "getBlockNumber env = Inr h"
    and c1: "cursor s1 chain = Some c1"
    and start: "chain = network \<longrightarrow> c1 \<le> fromBlock st"
  shows "\<exists>c'. cursor (snd (processNetwork env network li s)) chain = Some c' \<and> c1 \<le> c'"
proof (cases "fromBlock st > h")
  case True
  with c1 show ?thesis by (simp add: processNetwork_def head ds)
next
  case False
  then have "fromBlock st \<le> h" by linarith
  then have le: "fromBlock st \<le> toBlock st h" by (rule toBlock_ge)
  obtain r s' where 1: "indexNetwork env network (fromBlock st) (toBlock st h) s1 = (r, s')"
    by fastforce
  from indexNetwork_monotone[OF c1 le start, of env]
  obtain c' where "cursor s' chain = Some c'" "c1 \<le> c'" by (auto simp: 1)
  with False show ?thesis
    by (cases r) (simp_all add: processNetwork_def head ds 1)
qed

lemma processNetwork_monotone:
  assumes "cursor s chain = Some c"
  shows "\<exists>c'. cursor (snd (processNetwork env network (cursor s network) s)) chain = Some c'
           \<and> c \<le> c'"
proof (cases "getBlockNumber env")
  case (Inl e)
  with assms show ?thesis by (simp add: processNetwork_def)
next
  case (Inr h)
  show ?thesis
  proof (cases "cursor s network")
    case None
    then have ne: "chain \<noteq> network" using assms by auto
    obtain st where ds: "determineStart env network None h s = (st, s)"
      by (simp add: determineStart_def)
    from ne have "chain = network \<longrightarrow> c \<le> fromBlock st" by simp
    from processNetwork_after_start[OF ds Inr assms this] None
    show ?thesis by simp
  next
    case (Some last)
    then obtain row where row: "indexer_state s network = Some row"
      and last: "last_indexed_block row = last"
      by (auto simp: cursor_def)
    show ?thesis
    proof (cases "h - last > MAX_ACCEPTABLE_GAP")
      case False
      obtain st where ds: "determineStart env network (Some last) h s = (st, s)"
        and st: "fromBlock st = last + 1"
        using False by (simp add: determineStart_def Let_def)
      have "chain = network \<longrightarrow> c \<le> fromBlock st"
        using assms Some st by auto
      from processNetwork_after_start[OF ds Inr assms this] Some
      show ?thesis by simp
    next
      case True
      define fb where "fb = max 1 (h - RECENT_HISTORY_BLOCKS)"
      define s1 where "s1 = updateCursor env network (fb - 1) s"
      obtain st where ds: "determineStart env network (Some last) h s = (st, s1)"
        and st: "fromBlock st = fb"
        using True by (simp add: determineStart_def Let_def s1_def fb_def)
      have up: "last \<le> fb - 1"
        using True by (simp add: fb_def MAX_ACCEPTABLE_GAP_def RECENT_HISTORY_BLOCKS_def)
      define c1 where "c1 = (if chain = network then fb - 1 else c)"
      have s1: "cursor s1 chain = Some c1"
        using assms row by (simp add: s1_def c1_def updateCursor_def cursor_def)
      have ge: "c \<le> c1"
        using up assms Some by (auto simp: c1_def)
      have "chain = network \<longrightarrow> c1 \<le> fromBlock st"
        by (simp add: c1_def st)
      from processNetwork_after_start[OF ds Inr s1 this] Some
      obtain c' where "cursor (snd (processNetwork env network (cursor s network) s)) chain
          = Some c'" "c1 \<le> c'" by auto
      with ge show ?thesis by auto
    qed
  qed
qed

lemma processEach_skip:
  "\<not> isMain config \<Longrightarrow>
     processEach w l ((network, config) # rest) s = processEach w l rest s"
  by (simp split: option.split)

lemma processEach_NETWORKS:
  "processEach w l NETWORKS s =
     (case providers w ''polygon'' of
        None \<Rightarrow> s
      | Some env \<Rightarrow> snd (processNetwork env ''polygon'' (l ''polygon'') s))"
proof -
  have tail: "processEach w l (tl NETWORKS) s' = s'" for s'
    by (simp add: NETWORKS_def processEach_skip del: processEach.simps(2))
  have "NETWORKS = (''polygon'', \<lparr>isMain = True\<rparr>) # tl NETWORKS"
    by (simp add: NETWORKS_def)
  then have "processEach w l NETWORKS s =
      processEach w l ((''polygon'', \<lparr>isMain = True\<rparr>) # tl NETWORKS) s"
    by simp
  also have "\<dots> = (case providers w ''polygon'' of
        None \<Rightarrow> s
      | Some env \<Rightarrow> snd (processNetwork env ''polygon'' (l ''polygon'') s))"
    by (simp add: tail split: option.split)
  finally show ?thesis .
qed

lemma processNetworks_monotone:
  assumes "cursor s chain = Some c"
  shows "\<exists>c'. cursor (snd (processNetworks w s)) chain = Some c' \<and> c \<le> c'"
proof (cases "initialized w")
  case False
  with assms show ?thesis by (simp add: processNetworks_def)
next
  case True
  show ?thesis
  proof (cases "providers w ''polygon''")
    case None
    with assms True show ?thesis by (simp add: processNetworks_def processEach_NETWORKS)
  next
    case (Some env)
    have "(\<lambda>chain. map_option last_indexed_block (indexer_state s chain)) ''polygon''
            = cursor s ''polygon''"
      by (simp add: cursor_def)
    with processNetwork_monotone[OF assms, of env "''polygon''"] True Some
    show ?thesis by (simp add: processNetworks_def processEach_NETWORKS)
  qed
qed



text \<open>
  Claim C3. On a scheduler run for a chain whose gap between head \<open>h\<close> and cursor \<open>c\<close>
  exceeds 500,000 blocks, the scheduler takes the jump-ahead path, writes
  \<open>max 1 (h - 100000) - 1\<close> into the persisted cursor, and with that cursor in the
  table calls \<^verbatim>\<open>indexNetwork\<close> from block \<open>max 1 (h - 100000)\<close> (for a batch of 5000
  blocks). The cursor of a chain is a block number, hence not negative. For head
  1,000,000 and cursor 100 the cursor becomes 899,999 and indexing resumes at 900,000.
\<close>

theorem jump_ahead:
  assumes "getBlockNumber env = Inr h"
    and "indexer_state s network = Some row"
    and "last_indexed_block row = c"
    and "0 \<le> c"
    and "h - c > 500000"
  shows "(let st = fst (determineStart env network (Some c) h s);
              s1 = snd (determineStart env network (Some c) h s)
          in jumpedAhead st \<and> fromBlock st = max 1 (h - 100000)
             \<and> cursor s1 network = Some (max 1 (h - 100000) - 1)
             \<and> processNetwork env network (Some c) s =
                 (case indexNetwork env network (max 1 (h - 100000))
                         (max 1 (h - 100000) + 4999) s1 of
                    (Inl e, s2) \<Rightarrow> (Inl e, s2)
                  | (Inr b, s2) \<Rightarrow> (Inr (), s2)))"
proof -
  define fb where "fb = max 1 (h - 100000)"
  define s1 where "s1 = updateCursor env network (fb - 1) s"
  have gap: "h - c > MAX_ACCEPTABLE_GAP" "\<not> h - c \<le> REALTIME_THRESHOLD"
    using assms(5) by (simp_all add: MAX_ACCEPTABLE_GAP_def REALTIME_THRESHOLD_def)
  have ds: "determineStart env network (Some c) h s =
      (\<lparr>fromBlock = fb, jumpedAhead = True, realtimeMode = False\<rparr>, s1)"
    using gap by (simp add: determineStart_def Let_def fb_def s1_def RECENT_HISTORY_BLOCKS_def)
  have cur: "cursor s1 network = Some (fb - 1)"
    using assms(2) by (simp add: s1_def updateCursor_def cursor_def)
  have fb: "fb = h - 100000" "fb \<le> h"
    using assms(4,5) by (simp_all add: fb_def)
  have tb: "toBlock \<lparr>fromBlock = fb, jumpedAhead = True, realtimeMode = False\<rparr> h = fb + 4999"
    using fb by (simp add: toBlock_def blocksToProcess_def batchSize_def CATCHUP_BATCH_SIZE_def)
  have pn: "processNetwork env network (Some c) s =
      (case indexNetwork env network fb (fb + 4999) s1 of
         (Inl e, s2) \<Rightarrow> (Inl e, s2)
       | (Inr b, s2) \<Rightarrow> (Inr (), s2))"
    using fb(2) by (simp add: processNetwork_def assms(1) ds tb)
  show ?thesis
    unfolding Let_def ds fst_conv snd_conv fb_def[symmetric]
    using cur pn by simp
qed

lemma head_of_quiet_chain: "getBlockNumber (quiet_chain 1000000) = Inr 1000000"
  by (simp add: quiet_chain_def)

lemma row_of_cursor_at: "indexer_state (cursor_at 100) ''polygon''
            = Some \<lparr>last_indexed_block = 100, cur_updated_at = 0\<rparr>"
  by (simp add: cursor_at_def)

theorem jump_ahead_witness:
  "getBlockNumber (quiet_chain 1000000) = Inr 1000000
   \<and> cursor (cursor_at 100) ''polygon'' = Some 100
   \<and> (0::int) \<le> 100 \<and> (1000000::int) - 100 > 500000
   \<and> cursor (snd (determineStart (quiet_chain 1000000) ''polygon'' (Some 100) 1000000
                    (cursor_at 100))) ''polygon'' = Some 899999
   \<and> processNetwork (quiet_chain 1000000) ''polygon'' (Some 100) (cursor_at 100) =
       (case indexNetwork (quiet_chain 1000000) ''polygon'' 900000 904999
               (snd (determineStart (quiet_chain 1000000) ''polygon'' (Some 100) 1000000
                       (cursor_at 100))) of
          (Inl e, s2) \<Rightarrow> (Inl e, s2)
        | (Inr b, s2) \<Rightarrow> (Inr (), s2))"
proof -
  have c: "last_indexed_block \<lparr>last_indexed_block = 100, cur_updated_at = 0\<rparr> = 100"
    by simp
  have z: "(0::int) \<le> 100" by simp
  have g: "(1000000::int) - 100 > 500000" by simp
  show ?thesis
    using jump_ahead[OF head_of_quiet_chain row_of_cursor_at c z g]
      head_of_quiet_chain row_of_cursor_at
    by (simp add: Let_def cursor_def)
qed


text \<open>
  Claim C5. Over any sequence of scheduler runs, in whatever worlds they take place, the
  persisted cursor of a chain never decreases: a run leaves it, moves it to the end of
  the range it indexed, or jumps ahead, and even the jump moves it forward. The
  jump-ahead path is taken only when the gap between head and cursor exceeds 500,000.
\<close>

theorem cursor_monotone:
  assumes "cursor s chain = Some c"
  shows "(\<exists>c'. cursor (schedulerRuns ws s) chain = Some c' \<and> c \<le> c')
         \<and> (jumpedAhead (fst (determineStart env network (Some c0) h s0))
              \<longrightarrow> h - c0 > 500000)"
proof
  show "\<exists>c'. cursor (schedulerRuns ws s) chain = Some c' \<and> c \<le> c'"
    using assms
  proof (induction ws arbitrary: s c)
    case Nil
    then show ?case by simp
  next
    case (Cons w ws)
    from processNetworks_monotone[OF Cons.prems, of w]
    obtain c1 where c1: "cursor (snd (processNetworks w s)) chain = Some c1" "c \<le> c1"
      by auto
    from Cons.IH[OF c1(1)] obtain c' where
      "cursor (schedulerRuns ws (snd (processNetworks w s))) chain = Some c'" "c1 \<le> c'"
      by auto
    with c1(2) show ?case by auto
  qed
  show "jumpedAhead (fst (determineStart env network (Some c0) h s0)) \<longrightarrow> h - c0 > 500000"
    by (simp add: determineStart_def Let_def MAX_ACCEPTABLE_GAP_def)
qed


lemma cursor_of_cursor_at: "cursor (cursor_at 950) ''polygon'' = Some 950"
  by (simp add: cursor_at_def cursor_def)

lemma two_runs_from_950:
  "cursor (schedulerRuns [world_at 1000, world_at 990] (cursor_at 950)) ''polygon''
     = Some 1000"
  by code_simp

lemma jump_taken_at_gap_999900:
  "jumpedAhead (fst (determineStart (quiet_chain 1000000) ''polygon'' (Some 100)
     1000000 (cursor_at 100)))"
  by code_simp

theorem cursor_monotone_witness:
  "cursor (cursor_at 950) ''polygon'' = Some 950
   \<and> cursor (schedulerRuns [world_at 1000, world_at 990] (cursor_at 950)) ''polygon''
       = Some 1000
   \<and> jumpedAhead (fst (determineStart (quiet_chain 1000000) ''polygon'' (Some 100)
         1000000 (cursor_at 100)))
   \<and> (1000000::int) - 100 > 500000"
  using cursor_monotone[OF cursor_of_cursor_at,
      where ws = "[world_at 1000, world_at 990]" and env = "quiet_chain 1000000"
        and network = "''polygon''" and ?c0.0 = 100 and h = 1000000 and ?s0.0 = "cursor_at 100"]
    cursor_of_cursor_at two_runs_from_950 jump_taken_at_gap_999900
  by simp

section \<open>Chunking of a long span\<close>



section \<open>Replaying campaign lifecycle events\<close>

lemma campaigns_insertCreated:
  "campaigns (insertCreated vs txs s) =
     fold (\<lambda>(k, row). insert_do_nothing k row) vs (campaigns s)"
  by (simp add: insertCreated_def)

lemma keys_insert_do_nothing:
  "fst ` set (insert_do_nothing k v t) = insert k (fst ` set t)"
proof (cases "map_of t k")
  case None
  then show ?thesis by (simp add: insert_do_nothing_def)
next
  case (Some a)
  then have "k \<in> fst ` set t" by (metis map_of_eq_None_iff option.distinct(1))
  with Some show ?thesis by (auto simp: insert_do_nothing_def)
qed

lemma keys_fold_insert:
  "fst ` set (fold (\<lambda>(k, row). insert_do_nothing k row) vs t) = fst ` set vs \<union> fst ` set t"
proof (induction vs arbitrary: t)
  case Nil
  show ?case by simp
next
  case (Cons v vs)
  obtain k row where v: "v = (k, row)" by (cases v)
  have "fst ` set (fold (\<lambda>(k, row). insert_do_nothing k row) (v # vs) t)
      = fst ` set vs \<union> insert k (fst ` set t)"
    by (simp add: v Cons.IH keys_insert_do_nothing)
  then show ?case by (simp add: v)
qed

lemma insert_do_nothing_absorbed:
  "k \<in> fst ` set t \<Longrightarrow> insert_do_nothing k v t = t"
  by (cases "map_of t k") (auto simp: insert_do_nothing_def map_of_eq_None_iff)

lemma fold_insert_absorbed:
  "fst ` set vs \<subseteq> fst ` set t \<Longrightarrow> fold (\<lambda>(k, row). insert_do_nothing k row) vs t = t"
proof (induction vs)
  case Nil
  show ?case by simp
next
  case (Cons v vs)
  obtain k row where v: "v = (k, row)" by (cases v)
  from Cons.prems have "k \<in> fst ` set t" and "fst ` set vs \<subseteq> fst ` set t"
    by (simp_all add: v)
  then show ?case
    by (simp add: v insert_do_nothing_absorbed Cons.IH)
qed

lemma update_where_map:
  "update_where k f t = map (\<lambda>(k', v). (k', if k' = k then f v else v)) t"
  by (auto simp: update_where_def)

lemma keys_map_rows: "fst ` set (map (\<lambda>(k, r). (k, g k r)) t) = fst ` set t"
  by (induction t) auto

lemma campaigns_fold_applyEdited:
  "campaigns (fold (applyEdited env network m) events s) =
     map (\<lambda>(k, r). (k, edit_row env m events k r)) (campaigns s)"
proof (induction events arbitrary: s)
  case Nil
  show ?case by (simp add: edit_row_def)
next
  case (Cons event events)
  have step: "campaigns (applyEdited env network m event s) =
      map (\<lambda>(k, r). (k, if ee_campaignId event = k
                          then (case m k of None \<Rightarrow> r | Some c \<Rightarrow> edited_update env c r)
                          else r)) (campaigns s)"
  proof (cases "m (ee_campaignId event)")
    case None
    have "map (\<lambda>(k, r). (k, if ee_campaignId event = k
                          then (case m k of None \<Rightarrow> r | Some c \<Rightarrow> edited_update env c r)
                          else r)) (campaigns s) = campaigns s"
      by (rule map_idI) (auto simp: None)
    then show ?thesis by (simp add: applyEdited_def None)
  next
    case (Some c)
    then show ?thesis by (auto simp: applyEdited_def update_where_map)
  qed
  show ?case
    by (simp add: Cons.IH step edit_row_def case_prod_unfold comp_def cong: if_cong)
qed

lemma campaigns_fold_applyEnded:
  "campaigns (fold (applyEnded env) events s) =
     map (\<lambda>(k, r). (k, end_row env events k r)) (campaigns s)"
proof (induction events arbitrary: s)
  case Nil
  show ?case by (simp add: end_row_def)
next
  case (Cons event events)
  have step: "campaigns (applyEnded env event s) =
      map (\<lambda>(k, r). (k, if ne_campaignId event = k
                          then ended_update env (int (ne_finalStableValue event)) r
                          else r)) (campaigns s)"
    by (auto simp: applyEnded_def update_where_map)
  show ?case
    by (simp add: Cons.IH step end_row_def case_prod_unfold comp_def cong: if_cong)
qed

lemma edit_row_closed:
  "edit_row env m events k row =
     (if k \<in> ee_campaignId ` set events
      then (case m k of None \<Rightarrow> row | Some campaign \<Rightarrow> edited_update env campaign row)
      else row)"
proof (induction events arbitrary: row)
  case Nil
  show ?case by (simp add: edit_row_def)
next
  case (Cons event events)
  have unfold: "edit_row env m (event # events) k row =
      edit_row env m events k
        (if ee_campaignId event = k
         then (case m k of None \<Rightarrow> row | Some campaign \<Rightarrow> edited_update env campaign row)
         else row)"
    by (simp add: edit_row_def)
  show ?case
    unfolding unfold Cons.IH
    by (auto simp: edited_update_def split: option.splits)
qed

lemma end_row_closed:
  "end_row env events k row =
     (case finalFor events k of None \<Rightarrow> row | Some final \<Rightarrow> ended_update env final row)"
proof (induction events arbitrary: row)
  case Nil
  show ?case by (simp add: end_row_def)
next
  case (Cons event events)
  have unfold: "end_row env (event # events) k row =
      end_row env events k
        (if ne_campaignId event = k
         then ended_update env (int (ne_finalStableValue event)) row else row)"
    by (simp add: end_row_def)
  show ?case
    unfolding unfold Cons.IH
    by (auto simp: ended_update_def split: option.splits)
qed

lemma rows_replayed:
  "(end_row env2 ns k (edit_row env2 m es k (end_row env ns k (edit_row env m es k row))))
      \<lparr>c_updated_at := 0\<rparr>
   = (end_row env ns k (edit_row env m es k row))\<lparr>c_updated_at := 0\<rparr>"
  by (auto simp: edit_row_closed end_row_closed edited_update_def ended_update_def
      split: option.splits)

lemma rows_replayed_same_clock:
  "end_row env ns k (edit_row env m es k (end_row env ns k (edit_row env m es k row)))
   = end_row env ns k (edit_row env m es k row)"
  by (auto simp: edit_row_closed end_row_closed edited_update_def ended_update_def
      split: option.splits)

lemma endedTxValues_ok:
  "(\<exists>rows. endedTxValues env network table ns = Inr rows)
     \<longleftrightarrow> ne_campaignId ` set ns \<subseteq> fst ` set table"
proof (induction ns)
  case Nil
  show ?case by simp
next
  case (Cons event ns)
  show ?case
  proof (cases "map_of table (ne_campaignId event)")
    case None
    then have "ne_campaignId event \<notin> fst ` set table"
      by (simp add: map_of_eq_None_iff)
    with None show ?thesis by simp
  next
    case (Some row)
    then have "ne_campaignId event \<in> fst ` set table"
      by (metis map_of_eq_None_iff option.distinct(1))
    with Some Cons.IH show ?thesis
      by (cases "endedTxValues env network table ns") auto
  qed
qed

lemma createdValues_keys:
  "map fst (createdValues env2 network m cs) = map fst (createdValues env network m cs)"
  by (induction cs) (auto simp: createdValues_def List.map_filter_simps split: option.splits)

text \<open>The campaigns table after the writes of the category, and when they commit.\<close>

lemma writeCampaignEvents_campaigns:
  assumes "writeCampaignEvents env network m cs es ns s = Inr s'"
  shows "campaigns s' =
           map (\<lambda>(k, r). (k, end_row env ns k (edit_row env m es k r)))
             (fold (\<lambda>(k, row). insert_do_nothing k row) (createdValues env network m cs)
                (campaigns s))"
  using assms
  by (auto simp: writeCampaignEvents_def Let_def campaigns_fold_applyEnded
      campaigns_fold_applyEdited campaigns_insertCreated case_prod_unfold comp_def
      split: sum.splits)

lemma writeCampaignEvents_commits:
  "(\<exists>s'. writeCampaignEvents env network m cs es ns s = Inr s')
     \<longleftrightarrow> ne_campaignId ` set ns
           \<subseteq> fst ` set (createdValues env network m cs) \<union> fst ` set (campaigns s)"
proof -
  let ?T = "campaigns (fold (applyEnded env) ns (fold (applyEdited env network m) es
              (insertCreated (createdValues env network m cs)
                 (createdTxValues env network m cs) s)))"
  have keys: "fst ` set ?T
      = fst ` set (createdValues env network m cs) \<union> fst ` set (campaigns s)"
    by (simp only: campaigns_fold_applyEnded campaigns_fold_applyEdited
        campaigns_insertCreated keys_map_rows keys_fold_insert)
  have "(\<exists>s'. writeCampaignEvents env network m cs es ns s = Inr s')
      \<longleftrightarrow> (\<exists>rows. endedTxValues env network ?T ns = Inr rows)"
    by (auto simp: writeCampaignEvents_def Let_def split: sum.splits)
  then show ?thesis by (simp add: endedTxValues_ok keys)
qed

lemma writeCampaignEvents_replay:
  fixes env env2 network m cs es ns s
  defines "once \<equiv> settled (writeCampaignEvents env network m cs es ns s) s"
  defines "twice \<equiv> settled (writeCampaignEvents env2 network m cs es ns once) once"
  shows "lifecycle_view (campaigns twice) = lifecycle_view (campaigns once)"
    and "now env2 = now env \<Longrightarrow> campaigns twice = campaigns once"
proof -
  let ?cv = "createdValues env network m cs"
  let ?cv2 = "createdValues env2 network m cs"
  have keys2: "fst ` set ?cv2 = fst ` set ?cv"
    using createdValues_keys[of env2 network m cs env]
    by (metis (no_types) set_map)
  show "lifecycle_view (campaigns twice) = lifecycle_view (campaigns once)"
    and "now env2 = now env \<Longrightarrow> campaigns twice = campaigns once"
  proof (atomize (full), cases "writeCampaignEvents env network m cs es ns s")
    case (Inl e)
    then have once: "once = s" by (simp add: once_def settled_def)
    have "\<not> (\<exists>s'. writeCampaignEvents env network m cs es ns s = Inr s')"
      using Inl by simp
    moreover have "(\<exists>s'. writeCampaignEvents env2 network m cs es ns s = Inr s')
        \<longleftrightarrow> (\<exists>s'. writeCampaignEvents env network m cs es ns s = Inr s')"
      by (simp only: writeCampaignEvents_commits keys2)
    ultimately have "\<not> (\<exists>s'. writeCampaignEvents env2 network m cs es ns s = Inr s')"
      by blast
    then have "twice = s"
      by (cases "writeCampaignEvents env2 network m cs es ns s")
         (auto simp: twice_def once settled_def)
    with once show "lifecycle_view (campaigns twice) = lifecycle_view (campaigns once)
        \<and> (now env2 = now env \<longrightarrow> campaigns twice = campaigns once)" by simp
  next
    case (Inr s1)
    then have once: "once = s1" by (simp add: once_def settled_def)
    let ?T0 = "fold (\<lambda>(k, row). insert_do_nothing k row) ?cv (campaigns s)"
    have T1: "campaigns s1 = map (\<lambda>(k, r). (k, end_row env ns k (edit_row env m es k r))) ?T0"
      using Inr by (rule writeCampaignEvents_campaigns)
    have keys1: "fst ` set (campaigns s1) = fst ` set ?cv \<union> fst ` set (campaigns s)"
      by (simp only: T1 keys_map_rows keys_fold_insert)
    have "ne_campaignId ` set ns \<subseteq> fst ` set ?cv \<union> fst ` set (campaigns s)"
      using Inr writeCampaignEvents_commits[of env network m cs es ns s] by auto
    then have "ne_campaignId ` set ns \<subseteq> fst ` set ?cv2 \<union> fst ` set (campaigns s1)"
      using keys1 keys2 by auto
    then obtain s2 where s2: "writeCampaignEvents env2 network m cs es ns s1 = Inr s2"
      using writeCampaignEvents_commits[of env2 network m cs es ns s1] by auto
    then have twice: "twice = s2" by (simp add: twice_def once settled_def)
    have "fst ` set ?cv2 \<subseteq> fst ` set (campaigns s1)"
      using keys1 keys2 by auto
    then have absorbed: "fold (\<lambda>(k, row). insert_do_nothing k row) ?cv2 (campaigns s1)
        = campaigns s1"
      by (rule fold_insert_absorbed)
    have T2: "campaigns s2 =
        map (\<lambda>(k, r). (k, end_row env2 ns k (edit_row env2 m es k r))) (campaigns s1)"
      using writeCampaignEvents_campaigns[OF s2] by (simp add: absorbed)
    have view: "lifecycle_view (campaigns s2) = lifecycle_view (campaigns s1)"
      by (simp add: T2 T1 lifecycle_view_def case_prod_unfold comp_def rows_replayed)
    have same: "campaigns s2 = campaigns s1" if "now env2 = now env"
    proof -
      have "edit_row env2 m es k r = edit_row env m es k r" for k r
        using that by (auto simp: edit_row_closed edited_update_def split: option.splits)
      moreover have "end_row env2 ns k r = end_row env ns k r" for k r
        using that by (auto simp: end_row_closed ended_update_def split: option.splits)
      ultimately show ?thesis
        by (simp add: T2 T1 case_prod_unfold comp_def rows_replayed_same_clock)
    qed
    from view same show "lifecycle_view (campaigns twice) = lifecycle_view (campaigns once)
        \<and> (now env2 = now env \<longrightarrow> campaigns twice = campaigns once)"
      by (simp add: once twice)
  qed
qed

lemma fetchBatch_same:
  "campaignsCall env2 = campaignsCall env \<Longrightarrow> fetchBatch env2 ids = fetchBatch env ids"
  by (induction ids) (simp_all split: sum.split)

lemma prefetch_same:
  "campaignsCall env2 = campaignsCall env \<Longrightarrow> prefetch env2 ids m = prefetch env ids m"
proof (induction env ids m rule: prefetch.induct)
  case (1 env ids m)
  show ?case
  proof (cases "ids = []")
    case True
    then show ?thesis by (simp add: prefetch.simps)
  next
    case False
    show ?thesis
    proof (cases "fetchBatch env (take BATCH_SIZE ids)")
      case (Inl e)
      with False "1.prems" show ?thesis
        by (simp add: prefetch.simps[of env2 ids] prefetch.simps[of env ids]
            fetchBatch_same[OF "1.prems"])
    next
      case (Inr results)
      with False "1.prems" "1.IH"[OF False Inr "1.prems"] show ?thesis
        by (simp add: prefetch.simps[of env2 ids] prefetch.simps[of env ids]
            fetchBatch_same[OF "1.prems"])
    qed
  qed
qed

lemma indexCampaignEvents_settled:
  assumes "network_isMain network = Inr True"
    and "withRetry (queryCampaignCreated env f t) = Inr cs"
    and "withRetry (queryCampaignEdited env f t) = Inr es"
    and "withRetry (queryCampaignEnded env f t) = Inr ns"
    and "prefetch env (allCampaignIds cs es) Map.empty = Inr m"
  shows "snd (indexCampaignEvents env network f t s)
           = settled (writeCampaignEvents env network m cs es ns s) s"
  using assms
  by (cases "writeCampaignEvents env network m cs es ns s")
     (simp_all add: indexCampaignEvents_def settled_def)

lemma indexCampaignEvents_unsettled:
  assumes "network_isMain network \<noteq> Inr True
      \<or> (\<exists>e. withRetry (queryCampaignCreated env f t) = Inl e)
      \<or> (\<exists>e. withRetry (queryCampaignEdited env f t) = Inl e)
      \<or> (\<exists>e. withRetry (queryCampaignEnded env f t) = Inl e)
      \<or> (\<exists>cs es e. withRetry (queryCampaignCreated env f t) = Inr cs
            \<and> withRetry (queryCampaignEdited env f t) = Inr es
            \<and> prefetch env (allCampaignIds cs es) Map.empty = Inl e)"
  shows "snd (indexCampaignEvents env network f t s) = s"
  using assms
  by (auto simp: indexCampaignEvents_def split: sum.split)

lemma indexCampaignEvents_replay:
  fixes env env2 network f t s
  assumes same: "queryCampaignCreated env2 = queryCampaignCreated env"
    "queryCampaignEdited env2 = queryCampaignEdited env"
    "queryCampaignEnded env2 = queryCampaignEnded env"
    "campaignsCall env2 = campaignsCall env"
  defines "once \<equiv> snd (indexCampaignEvents env network f t s)"
  defines "twice \<equiv> snd (indexCampaignEvents env2 network f t once)"
  shows "lifecycle_view (campaigns twice) = lifecycle_view (campaigns once)
         \<and> (now env2 = now env \<longrightarrow> campaigns twice = campaigns once)"
proof -
  consider
    (commit) cs es ns m where "network_isMain network = Inr True"
      "withRetry (queryCampaignCreated env f t) = Inr cs"
      "withRetry (queryCampaignEdited env f t) = Inr es"
      "withRetry (queryCampaignEnded env f t) = Inr ns"
      "prefetch env (allCampaignIds cs es) Map.empty = Inr m"
  | (skip) "network_isMain network \<noteq> Inr True
      \<or> (\<exists>e. withRetry (queryCampaignCreated env f t) = Inl e)
      \<or> (\<exists>e. withRetry (queryCampaignEdited env f t) = Inl e)
      \<or> (\<exists>e. withRetry (queryCampaignEnded env f t) = Inl e)
      \<or> (\<exists>cs es e. withRetry (queryCampaignCreated env f t) = Inr cs
            \<and> withRetry (queryCampaignEdited env f t) = Inr es
            \<and> prefetch env (allCampaignIds cs es) Map.empty = Inl e)"
    by (cases "withRetry (queryCampaignCreated env f t)";
        cases "withRetry (queryCampaignEdited env f t)";
        cases "withRetry (queryCampaignEnded env f t)";
        cases "prefetch env (allCampaignIds
                 (projr (withRetry (queryCampaignCreated env f t)))
                 (projr (withRetry (queryCampaignEdited env f t)))) Map.empty")
       auto
  then show ?thesis
  proof cases
    case commit
    have once: "once = settled (writeCampaignEvents env network m cs es ns s) s"
      unfolding once_def using commit by (rule indexCampaignEvents_settled)
    have "twice = settled (writeCampaignEvents env2 network m cs es ns once) once"
      unfolding twice_def using commit
      by (intro indexCampaignEvents_settled) (simp_all add: same prefetch_same[OF same(4)])
    with once writeCampaignEvents_replay[where env = env and ?env2.0 = env2 and network = network
        and m = m and cs = cs and es = es and ns = ns and s = s]
    show ?thesis by simp
  next
    case skip
    have once: "once = s"
      unfolding once_def using skip by (rule indexCampaignEvents_unsettled)
    have "twice = once"
      unfolding twice_def once using skip
      by (intro indexCampaignEvents_unsettled) (simp add: same prefetch_same[OF same(4)])
    then show ?thesis by simp
  qed
qed


text \<open>
  Claim C4. Indexing the campaign events of a block range a second time, on the state the
  first indexing left and with the node giving the same answers at a later time, leaves
  the campaigns table as the first indexing left it, in every column but the stamp
  \<^verbatim>\<open>updated_at\<close>; with the clock unchanged the tables are equal. The created rows are
  inserted with \<^verbatim>\<open>ON CONFLICT (id) DO NOTHING\<close>, the edited and the ended updates assign
  the same values again. This holds whatever the node answers, also when a query fails or
  the transaction is rolled back.
\<close>

theorem campaign_replay_idempotent:
  "lifecycle_view (campaigns (snd (indexCampaignEvents (env\<lparr>now := later\<rparr>) network f t
       (snd (indexCampaignEvents env network f t s)))))
     = lifecycle_view (campaigns (snd (indexCampaignEvents env network f t s)))
   \<and> campaigns (snd (indexCampaignEvents env network f t
       (snd (indexCampaignEvents env network f t s))))
     = campaigns (snd (indexCampaignEvents env network f t s))"
  using indexCampaignEvents_replay[where ?env2.0 = "env\<lparr>now := later\<rparr>" and env = env
      and network = network and f = f and t = t and s = s]
    indexCampaignEvents_replay[where ?env2.0 = env and env = env
      and network = network and f = f and t = t and s = s]
  by simp

lemma lifecycle_once:
  "map (\<lambda>(k, row). (k, c_name row, c_ended row, c_amount_raised row, c_updated_at row))
     (campaigns (snd (indexCampaignEvents lifecycle_chain ''polygon'' 1 100 empty_state)))
   = [(7, ''school'', True, 12, 10)]"
  by code_simp

lemma lifecycle_twice:
  "map (\<lambda>(k, row). (k, c_name row, c_ended row, c_amount_raised row, c_updated_at row))
     (campaigns (snd (indexCampaignEvents (lifecycle_chain\<lparr>now := 99\<rparr>) ''polygon'' 1 100
        (snd (indexCampaignEvents lifecycle_chain ''polygon'' 1 100 empty_state)))))
   = [(7, ''school'', True, 12, 99)]"
  by code_simp

theorem campaign_replay_idempotent_witness:
  "lifecycle_view (campaigns (snd (indexCampaignEvents (lifecycle_chain\<lparr>now := 99\<rparr>)
       ''polygon'' 1 100
       (snd (indexCampaignEvents lifecycle_chain ''polygon'' 1 100 empty_state)))))
     = lifecycle_view (campaigns
         (snd (indexCampaignEvents lifecycle_chain ''polygon'' 1 100 empty_state)))
   \<and> map (\<lambda>(k, row). (k, c_name row, c_ended row, c_amount_raised row, c_updated_at row))
       (campaigns (snd (indexCampaignEvents lifecycle_chain ''polygon'' 1 100 empty_state)))
     = [(7, ''school'', True, 12, 10)]"
  using campaign_replay_idempotent[where env = lifecycle_chain and later = 99
      and network = "''polygon''" and f = 1 and t = 100 and s = empty_state]
    lifecycle_once
  by simp


section \<open>Donations are counted once per processing\<close>

lemma map_of_amount_view:
  "map_of (map (\<lambda>(k, row). (k, c_amount_raised row)) t) c
     = map_option c_amount_raised (map_of t c)"
  by (induction t) auto

lemma amountRaised_amounts: "amountRaised s c = map_of (amounts s) c"
  by (simp add: amountRaised_def amounts_def map_of_amount_view)

lemma donated_Cons:
  "donated (event # events) k =
     (if de_campaignId event = k then int (de_netUSDValue event) else 0) + donated events k"
  by (simp add: donated_def)

lemma donated_Nil: "donated [] k = 0"
  by (simp add: donated_def)

lemma donated_nonneg: "0 \<le> donated events k"
  by (induction events) (auto simp: donated_Cons donated_Nil)

lemma donated_member:
  "event \<in> set events \<Longrightarrow> int (de_netUSDValue event) \<le> donated events (de_campaignId event)"
proof (induction events)
  case Nil
  then show ?case by simp
next
  case (Cons e events)
  show ?case
  proof (cases "event = e")
    case True
    then show ?thesis using donated_nonneg[of events "de_campaignId e"]
      by (simp add: donated_Cons)
  next
    case False
    with Cons have "int (de_netUSDValue event) \<le> donated events (de_campaignId event)"
      by simp
    then show ?thesis by (simp add: donated_Cons)
  qed
qed

lemma update_where_checked_ok:
  assumes "\<forall>(k', v) \<in> set t. k' = k \<longrightarrow> f v = Inr (g v)"
  shows "update_where_checked k f t = Inr (update_where k g t)"
  using assms
  by (induction t) (auto simp: update_where_def)

lemma applyDonation_ok:
  assumes "\<forall>(k, a) \<in> set (amounts s). k = de_campaignId event
             \<longrightarrow> fits_decimal (a + int (de_netUSDValue event))"
  shows "applyDonation env event s =
           Inr (s\<lparr>campaigns :=
                    update_where (de_campaignId event)
                      (\<lambda>row. row\<lparr>c_amount_raised :=
                                    c_amount_raised row + int (de_netUSDValue event),
                                  c_updated_at := now env\<rparr>) (campaigns s)\<rparr>)"
proof -
  have "update_where_checked (de_campaignId event)
          (donation_update env (int (de_netUSDValue event))) (campaigns s)
        = Inr (update_where (de_campaignId event)
                 (\<lambda>row. row\<lparr>c_amount_raised :=
                               c_amount_raised row + int (de_netUSDValue event),
                             c_updated_at := now env\<rparr>) (campaigns s))"
    using assms
    by (intro update_where_checked_ok) (auto simp: amounts_def donation_update_def)
  then show ?thesis by (simp add: applyDonation_def)
qed

lemma amounts_update:
  "amounts (s\<lparr>campaigns :=
      update_where k0 (\<lambda>row. row\<lparr>c_amount_raised := c_amount_raised row + x,
                                  c_updated_at := t\<rparr>) (campaigns s)\<rparr>)
   = map (\<lambda>(k, a). (k, if k = k0 then a + x else a)) (amounts s)"
  by (auto simp: amounts_def update_where_def)

lemma applyDonations_ok:
  assumes "1 \<le> n" and "room n events s"
  shows "\<exists>s'. applyDonations env events s = Inr s'
           \<and> amounts s' = map (\<lambda>(k, a). (k, a + donated events k)) (amounts s)
           \<and> donations s' = donations s \<and> transactions s' = transactions s"
  using assms(2)
proof (induction events arbitrary: s)
  case Nil
  show ?case by (simp add: donated_Nil case_prod_unfold)
next
  case (Cons event events)
  let ?x = "int (de_netUSDValue event)"
  let ?k0 = "de_campaignId event"
  let ?s1 = "s\<lparr>campaigns :=
                update_where ?k0 (\<lambda>row. row\<lparr>c_amount_raised := c_amount_raised row + ?x,
                                           c_updated_at := now env\<rparr>) (campaigns s)\<rparr>"
  have bound: "0 \<le> a \<and> a + n * donated (event # events) k < 10 ^ 24"
    if "(k, a) \<in> set (amounts s)" for k a
    using Cons.prems that by (auto simp: room_def list_all_iff)
  have mono: "donated events k \<le> n * donated events k" for k
    using assms(1) donated_nonneg[of events k] by (simp add: mult_le_cancel_right1)
  have fits: "\<forall>(k, a) \<in> set (amounts s). k = ?k0 \<longrightarrow> fits_decimal (a + ?x)"
  proof clarify
    fix a assume "(?k0, a) \<in> set (amounts s)"
    from bound[OF this] have "0 \<le> a" "a + n * (?x + donated events ?k0) < 10 ^ 24"
      by (simp_all add: donated_Cons)
    moreover have "?x \<le> n * ?x" using assms(1) by (simp add: mult_le_cancel_right1)
    moreover have "0 \<le> n * donated events ?k0"
      using assms(1) donated_nonneg[of events ?k0] by simp
    ultimately have "0 \<le> a + ?x" "a + ?x < 10 ^ 24"
      by (simp_all add: distrib_left)
    then show "fits_decimal (a + ?x)" by (simp add: fits_decimal_def)
  qed
  have step: "applyDonation env event s = Inr ?s1"
    using fits by (rule applyDonation_ok)
  have a1: "amounts ?s1 = map (\<lambda>(k, a). (k, if k = ?k0 then a + ?x else a)) (amounts s)"
    by (rule amounts_update)
  have "0 \<le> a' \<and> a' + n * donated events k < 10 ^ 24"
    if mem': "(k, a') \<in> set (amounts ?s1)" for k a'
  proof -
    from mem' obtain a where mem: "(k, a) \<in> set (amounts s)"
      and a': "a' = (if k = ?k0 then a + ?x else a)"
      unfolding a1 by auto
    from bound[OF mem] have b: "0 \<le> a" "a + n * donated (event # events) k < 10 ^ 24"
      by simp_all
    show ?thesis
    proof (cases "k = ?k0")
      case True
      have "?x \<le> n * ?x" using assms(1) by (simp add: mult_le_cancel_right1)
      then have "a + ?x + n * donated events ?k0 < 10 ^ 24"
        using b(2) True by (simp add: donated_Cons distrib_left)
      with b(1) True a' show ?thesis by simp
    next
      case False
      with b a' show ?thesis by (simp add: donated_Cons)
    qed
  qed
  then have "room n events ?s1"
    unfolding room_def list_all_iff by blast
  from Cons.IH[OF this] obtain s' where s':
    "applyDonations env events ?s1 = Inr s'"
    "amounts s' = map (\<lambda>(k, a). (k, a + donated events k)) (amounts ?s1)"
    "donations s' = donations ?s1" "transactions s' = transactions ?s1"
    by blast
  have "amounts s' = map (\<lambda>(k, a). (k, a + donated (event # events) k)) (amounts s)"
    unfolding s'(2) a1
    by (auto simp: donated_Cons)
  with s' step show ?case by simp
qed

lemma map_of_shifted:
  "map_of (map (\<lambda>(k, a). (k, a + g k)) A) c = map_option (\<lambda>a. a + g c) (map_of A c)"
  by (induction A) auto

lemma mirrored_amounts:
  "(map_of (campaigns s) k = None) = (k \<notin> fst ` set (amounts s))"
  by (force simp: amounts_def map_of_eq_None_iff)

lemma indexDonationEvents_effect:
  assumes main: "network_isMain network = Inr True"
    and events: "withRetry (queryDonationMade env f t) = Inr events"
    and mirrored: "list_all (\<lambda>event. map_of (campaigns s) (de_campaignId event) \<noteq> None) events"
    and n: "1 \<le> n" and room: "room n events s"
  shows "donations (snd (indexDonationEvents env network f t s))
           = donations s @ donationValues env network events"
    and "amounts (snd (indexDonationEvents env network f t s))
           = map (\<lambda>(k, a). (k, a + donated events k)) (amounts s)"
proof -
  let ?s0 = "s\<lparr>donations := donations s @ donationValues env network events\<rparr>"
  have fit: "list_all (\<lambda>event. fits_decimal (int (de_netUSDValue event))) events"
    unfolding list_all_iff
  proof
    fix event assume ev: "event \<in> set events"
    with mirrored have "map_of (campaigns s) (de_campaignId event) \<noteq> None"
      by (simp add: list_all_iff)
    then obtain a where "(de_campaignId event, a) \<in> set (amounts s)"
      by (auto simp: mirrored_amounts)
    with room have "0 \<le> a" "a + n * donated events (de_campaignId event) < 10 ^ 24"
      by (auto simp: room_def list_all_iff)
    moreover have "int (de_netUSDValue event) \<le> donated events (de_campaignId event)"
      using ev by (rule donated_member)
    moreover have "donated events (de_campaignId event)
        \<le> n * donated events (de_campaignId event)"
      using n donated_nonneg[of events "de_campaignId event"]
      by (simp add: mult_le_cancel_right1)
    ultimately have "int (de_netUSDValue event) < 10 ^ 24" by linarith
    then show "fits_decimal (int (de_netUSDValue event))"
      by (simp add: fits_decimal_def)
  qed
  have "room n events ?s0" using room by (simp add: room_def amounts_def)
  from applyDonations_ok[OF n this, of env] obtain s2 where s2:
    "applyDonations env events ?s0 = Inr s2"
    "amounts s2 = map (\<lambda>(k, a). (k, a + donated events k)) (amounts ?s0)"
    "donations s2 = donations ?s0" "transactions s2 = transactions ?s0"
    by blast
  have r: "indexDonationEvents env network f t s =
      (Inr (), s2\<lparr>transactions := transactions s2 @ donationTxValues env network events\<rparr>)"
    using main events mirrored fit s2(1)
    by (simp add: indexDonationEvents_def writeDonationEvents_def)
  show "donations (snd (indexDonationEvents env network f t s))
           = donations s @ donationValues env network events"
    by (simp add: r s2(3))
  show "amounts (snd (indexDonationEvents env network f t s))
           = map (\<lambda>(k, a). (k, a + donated events k)) (amounts s)"
    using s2(2) by (simp add: r amounts_def)
qed


text \<open>
  Claim C1, as amended. When the node reports the \<^verbatim>\<open>DonationMade\<close> events \<open>events\<close> for a
  range, all for mirrored campaigns, and the mirrored totals have room for the donations
  within \<^verbatim>\<open>DECIMAL(24, 8)\<close>, one processing of the range by \<^verbatim>\<open>indexDonationEvents\<close>
  appends one donation row per event and adds to a campaign's \<^verbatim>\<open>amount_raised\<close> the net
  amounts of its events; processing the identical range a second time appends the rows
  again and adds the amounts again. For one event of amount \<open>x\<close> the total grows by \<open>x\<close>
  on each processing, by \<open>2 * x\<close> after two: the indexing of donations is not idempotent.
\<close>

theorem donation_replay_double_counts:
  assumes "network_isMain network = Inr True"
    and "withRetry (queryDonationMade env f t) = Inr events"
    and "list_all (\<lambda>event. map_of (campaigns s) (de_campaignId event) \<noteq> None) events"
    and "room 2 events s"
    and "amountRaised s c = Some a"
  shows "(let once = snd (indexDonationEvents env network f t s);
              twice = snd (indexDonationEvents env network f t once)
          in donations once = donations s @ donationValues env network events
             \<and> amountRaised once c = Some (a + donated events c)
             \<and> donations twice = donations s @ donationValues env network events
                                    @ donationValues env network events
             \<and> amountRaised twice c = Some (a + 2 * donated events c))"
proof -
  let ?once = "snd (indexDonationEvents env network f t s)"
  note first = indexDonationEvents_effect[OF assms(1,2,3) _ assms(4), simplified]
  have keys: "fst ` set (amounts ?once) = fst ` set (amounts s)"
    unfolding first(2) by force
  have mirrored1: "list_all (\<lambda>event. map_of (campaigns ?once) (de_campaignId event) \<noteq> None)
      events"
    using assms(3) by (simp add: mirrored_amounts keys)
  have room1: "room 1 events ?once"
    using assms(4) unfolding room_def list_all_iff first(2)
    using donated_nonneg by fastforce
  note second = indexDonationEvents_effect[OF assms(1,2) mirrored1 _ room1, simplified]
  have a: "map_of (amounts s) c = Some a"
    using assms(5) by (simp add: amountRaised_amounts)
  have once_c: "map_of (amounts ?once) c = Some (a + donated events c)"
    by (simp only: first(2) map_of_shifted a option.map)
  have twice_c: "map_of (amounts (snd (indexDonationEvents env network f t ?once))) c
      = Some (a + donated events c + donated events c)"
    by (simp only: second(2) map_of_shifted once_c option.map)
  show ?thesis
    unfolding Let_def
    using once_c twice_c
    by (simp add: first(1) second(1) amountRaised_amounts)
qed

lemma polygon_isMain: "network_isMain ''polygon'' = Inr True"
  by (simp add: network_isMain_def NETWORKS_def)

lemma donation_chain_events:
  "withRetry (queryDonationMade donation_chain 1 100) = Inr [sample_donation]"
  by (simp add: withRetry_def MAX_RETRY_COUNT_def numeral_3_eq_3 donation_chain_def)

lemma sample_donation_mirrored:
  "list_all (\<lambda>event. map_of (campaigns one_campaign) (de_campaignId event) \<noteq> None)
     [sample_donation]"
  by (simp add: one_campaign_def sample_donation_def)

lemma donated_sample: "donated [sample_donation] 1 = 500000000"
  by (simp add: donated_def sample_donation_def)

lemma one_campaign_room: "room 2 [sample_donation] one_campaign"
  by (simp add: room_def amounts_def one_campaign_def sample_campaign_def donated_def
      sample_donation_def)

lemma one_campaign_amount: "amountRaised one_campaign 1 = Some 0"
  by (simp add: amountRaised_def one_campaign_def sample_campaign_def)

theorem donation_replay_double_counts_witness:
  "network_isMain ''polygon'' = Inr True
   \<and> withRetry (queryDonationMade donation_chain 1 100) = Inr [sample_donation]
   \<and> list_all (\<lambda>event. map_of (campaigns one_campaign) (de_campaignId event) \<noteq> None)
        [sample_donation]
   \<and> room 2 [sample_donation] one_campaign
   \<and> amountRaised one_campaign 1 = Some 0
   \<and> amountRaised (snd (indexDonationEvents donation_chain ''polygon'' 1 100 one_campaign)) 1
        = Some 500000000
   \<and> amountRaised (snd (indexDonationEvents donation_chain ''polygon'' 1 100
        (snd (indexDonationEvents donation_chain ''polygon'' 1 100 one_campaign)))) 1
        = Some 1000000000
   \<and> length (donations (snd (indexDonationEvents donation_chain ''polygon'' 1 100
        (snd (indexDonationEvents donation_chain ''polygon'' 1 100 one_campaign))))) = 2"
  using donation_replay_double_counts[OF polygon_isMain donation_chain_events
      sample_donation_mirrored one_campaign_room one_campaign_amount]
    polygon_isMain donation_chain_events sample_donation_mirrored one_campaign_room
    one_campaign_amount donated_sample
  by (simp add: Let_def donationValues_def one_campaign_def empty_state_def)

lemma stray_chain_events:
  "withRetry (queryDonationMade stray_chain 1 100) = Inr [stray_donation]"
  by (simp add: withRetry_def MAX_RETRY_COUNT_def numeral_3_eq_3 stray_chain_def)

lemma huge_chain_events:
  "withRetry (queryDonationMade huge_chain 1 100) = Inr [huge_donation]"
  by (simp add: withRetry_def MAX_RETRY_COUNT_def numeral_3_eq_3 huge_chain_def)


text \<open>
  Claim C1 as the specification states it, for every \<^verbatim>\<open>DonationMade\<close> event, fails: the
  processing of an event for a campaign that is not mirrored violates the foreign key of
  \<^verbatim>\<open>donations\<close>, and that of an amount of \<open>10\<^sup>2\<^sup>4\<close> units overflows the column; either
  way the category is rolled back, no donation row is inserted and nothing is added.
\<close>

theorem donation_not_inserted:
  "indexDonationEvents stray_chain ''polygon'' 1 100 one_campaign
     = (Inl (DbError ''violates foreign key constraint''), one_campaign)
   \<and> donations one_campaign = []
   \<and> indexDonationEvents huge_chain ''polygon'' 1 100 one_campaign
     = (Inl (DbError ''numeric field overflow''), one_campaign)
   \<and> amountRaised one_campaign 1 = Some 0"
  by (simp add: indexDonationEvents_def polygon_isMain stray_chain_events huge_chain_events
      writeDonationEvents_def stray_donation_def huge_donation_def fits_decimal_def
      one_campaign_def empty_state_def amountRaised_def sample_campaign_def)

end
